theory Spec2Isabelle
  imports Complex_Main "HOL-Library.Multiset"
begin

section \<open>Numbers and vectors\<close>

text \<open>
  The program is TypeScript; its \<open>number\<close> is an IEEE 754 binary64 double. The
  arithmetic of \<open>cosineSimilarity\<close> and of the fix evaluation is modelled with the
  rounding of doubles: a finite double is the real number it denotes (\<open>Num\<close>), and
  every operation returns the exact result rounded to the nearest double, ties to the
  even significand, with gradual underflow and with overflow to an infinity. A zero has
  no sign here: \<open>Num 0\<close> stands for \<open>+0\<close> and \<open>-0\<close>, which the comparisons \<open>=== 0\<close>
  and \<open><\<close> of the source do not tell apart.

  The centroid update and the priority score are kept over exact reals; the statements
  about them are statements of exact arithmetic.
\<close>

datatype jsnum = Num real | PosInf | NegInf | NaN

text \<open>
  The exponent of the unit in the last place of the doubles around \<open>x\<close>: 52 below the
  binary exponent of \<open>x\<close>, and \<open>-1074\<close> for the subnormal numbers.
\<close>

definition ulp_exp :: "real \<Rightarrow> int" where
  "ulp_exp x = max \<lfloor>log 2 \<bar>x\<bar>\<rfloor> (- 1022) - 52"

text \<open>Rounding to the nearest integer, a tie going to the even one.\<close>

definition round_even :: "real \<Rightarrow> int" where
  "round_even q =
     (let f = \<lfloor>q\<rfloor>; d = q - of_int f
      in if d < 1 / 2 then f else if 1 / 2 < d then f + 1 else if even f then f else f + 1)"

text \<open>The double nearest to a real number.\<close>

definition fl :: "real \<Rightarrow> jsnum" where
  "fl x =
     (if x = 0 then Num 0
      else (let u = 2 powr of_int (ulp_exp x); y = of_int (round_even (x / u)) * u
            in if 2 ^ 1024 \<le> y then PosInf else if y \<le> - (2 ^ 1024) then NegInf else Num y))"

text \<open>The infinity of a sign, \<open>NaN\<close> for no sign; and the sign of a value.\<close>

definition sgn_inf :: "real \<Rightarrow> jsnum" where
  "sgn_inf s = (if 0 < s then PosInf else if s < 0 then NegInf else NaN)"

fun sval :: "jsnum \<Rightarrow> real" where
  "sval (Num x) = x"
| "sval PosInf = 1"
| "sval NegInf = - 1"
| "sval NaN = 0"

text \<open>JavaScript \<open>a + b\<close>, \<open>a * b\<close>, \<open>a / b\<close>, \<open>Math.sqrt(a)\<close> and \<open>a < b\<close>.\<close>

fun js_add :: "jsnum \<Rightarrow> jsnum \<Rightarrow> jsnum" where
  "js_add NaN b = NaN"
| "js_add a NaN = NaN"
| "js_add (Num x) (Num y) = fl (x + y)"
| "js_add PosInf NegInf = NaN"
| "js_add NegInf PosInf = NaN"
| "js_add PosInf b = PosInf"
| "js_add a PosInf = PosInf"
| "js_add NegInf b = NegInf"
| "js_add a NegInf = NegInf"

fun js_mul :: "jsnum \<Rightarrow> jsnum \<Rightarrow> jsnum" where
  "js_mul NaN b = NaN"
| "js_mul a NaN = NaN"
| "js_mul (Num x) (Num y) = fl (x * y)"
| "js_mul a b = sgn_inf (sval a * sval b)"

text \<open>A zero divisor is taken as \<open>+0\<close>.\<close>

fun js_div :: "jsnum \<Rightarrow> jsnum \<Rightarrow> jsnum" where
  "js_div NaN b = NaN"
| "js_div a NaN = NaN"
| "js_div (Num x) (Num y) = (if y = 0 then sgn_inf x else fl (x / y))"
| "js_div (Num x) b = Num 0"
| "js_div a (Num y) = sgn_inf (sval a * (if y < 0 then - 1 else 1))"
| "js_div a b = NaN"

fun js_sqrt :: "jsnum \<Rightarrow> jsnum" where
  "js_sqrt (Num x) = (if x < 0 then NaN else fl (sqrt x))"
| "js_sqrt PosInf = PosInf"
| "js_sqrt NegInf = NaN"
| "js_sqrt NaN = NaN"

fun js_lt :: "jsnum \<Rightarrow> jsnum \<Rightarrow> bool" where
  "js_lt NaN b = False"
| "js_lt a NaN = False"
| "js_lt (Num x) (Num y) = (x < y)"
| "js_lt PosInf b = False"
| "js_lt a NegInf = False"
| "js_lt a b = True"

fun isNaN :: "jsnum \<Rightarrow> bool" where
  "isNaN NaN = True"
| "isNaN _ = False"

text \<open>JavaScript \<open>a > t\<close> for a \<open>jsnum\<close> and a finite threshold.\<close>

fun js_gt :: "jsnum \<Rightarrow> real \<Rightarrow> bool" where
  "js_gt (Num x) t = (t < x)"
| "js_gt PosInf t = True"
| "js_gt NegInf t = False"
| "js_gt NaN t = False"

text \<open>An integer read from the database, as a JavaScript number.\<close>

definition js_of_int :: "int \<Rightarrow> jsnum" where
  "js_of_int n = fl (of_int n)"

text \<open>The bounds of the relative error of one rounding.\<close>

definition rel_lo :: real where
  "rel_lo = 1 - 1 / 2 ^ 53"

definition rel_hi :: real where
  "rel_hi = 1 + 1 / 2 ^ 53"

section \<open>Cosine similarity\<close>

text \<open>
  \<^verbatim>\<open>
  for (let i = 0; i < vecA.length; i++) {
    dotProduct += vecA[i] * vecB[i];
    normA += vecA[i] * vecA[i];
    normB += vecB[i] * vecB[i];
  }
  \<close>
  One step of the loop body, on the three accumulators: each product is rounded, then
  each sum. The loop runs only after the two lengths were found equal, so both reads are
  in range. The components of a vector are the values of its doubles.
\<close>

definition cos_step :: "real list \<Rightarrow> real list \<Rightarrow> nat \<Rightarrow> jsnum \<times> jsnum \<times> jsnum \<Rightarrow> jsnum \<times> jsnum \<times> jsnum" where
  "cos_step vecA vecB i acc =
     (case acc of (dotProduct, normA, normB) \<Rightarrow>
        (js_add dotProduct (js_mul (Num (vecA ! i)) (Num (vecB ! i))),
         js_add normA (js_mul (Num (vecA ! i)) (Num (vecA ! i))),
         js_add normB (js_mul (Num (vecB ! i)) (Num (vecB ! i)))))"

definition cos_loop :: "real list \<Rightarrow> real list \<Rightarrow> jsnum \<times> jsnum \<times> jsnum" where
  "cos_loop vecA vecB = fold (cos_step vecA vecB) [0..<length vecA] (Num 0, Num 0, Num 0)"

text \<open>
  \<^verbatim>\<open>
  if (normA === 0 || normB === 0) return 0;
  const similarity = dotProduct / (Math.sqrt(normA) * Math.sqrt(normB));
  return isNaN(similarity) ? 0 : similarity;
  \<close>
\<close>

definition cosineSimilarity :: "real list \<Rightarrow> real list \<Rightarrow> jsnum" where
  "cosineSimilarity vecA vecB =
     (if vecA = [] \<or> vecB = [] then Num 0
      else if length vecA \<noteq> length vecB then Num 0
      else (case cos_loop vecA vecB of (dotProduct, normA, normB) \<Rightarrow>
        if normA = Num 0 \<or> normB = Num 0 then Num 0
        else (let similarity = js_div dotProduct (js_mul (js_sqrt normA) (js_sqrt normB))
              in if isNaN similarity then Num 0 else similarity)))"






section \<open>Strings and regular expressions\<close>

text \<open>
  A JavaScript string is modelled as a \<open>string\<close> of ASCII characters: case
  mapping, \<open>\w\<close> and \<open>\s\<close> are given for the ASCII range. Texts with other
  characters are outside the model: JavaScript maps the case of letters beyond ASCII, and
  its \<open>\s\<close> also matches the no-break space U+00A0, U+FEFF and the other Unicode
  spaces and line separators, which are not white space here.
\<close>

definition lower_char :: "char \<Rightarrow> char" where
  "lower_char c =
     (case map_of (zip ''ABCDEFGHIJKLMNOPQRSTUVWXYZ'' ''abcdefghijklmnopqrstuvwxyz'') c of
        Some d \<Rightarrow> d
      | None \<Rightarrow> c)"

definition toLowerCase :: "string \<Rightarrow> string" where
  "toLowerCase s = map lower_char s"

definition is_word :: "char \<Rightarrow> bool" where
  "is_word c \<longleftrightarrow>
     List.member ''abcdefghijklmnopqrstuvwxyzABCDEFGHIJKLMNOPQRSTUVWXYZ0123456789_'' c"

definition is_digit :: "char \<Rightarrow> bool" where
  "is_digit c \<longleftrightarrow> List.member ''0123456789'' c"

definition is_space :: "char \<Rightarrow> bool" where
  "is_space c \<longleftrightarrow>
     List.member [CHR '' '', CHR 0x09, CHR 0x0A, CHR 0x0B, CHR 0x0C, CHR 0x0D] c"

text \<open>\<open>s.includes(sub)\<close>.\<close>

fun str_includes :: "string \<Rightarrow> string \<Rightarrow> bool" where
  "str_includes [] sub = (sub = [])"
| "str_includes (c # cs) sub = (take (length sub) (c # cs) = sub \<or> str_includes cs sub)"

text \<open>\<open>s.trim()\<close>.\<close>

definition trim :: "string \<Rightarrow> string" where
  "trim s = rev (dropWhile is_space (rev (dropWhile is_space s)))"

text \<open>
  \<open>s.split(/\W+/)\<close>: the pieces between maximal runs of non-word characters, with an
  empty piece where the string starts or ends with such a run. \<open>cur\<close> is the piece
  being read, \<open>insep\<close> tells that a separator run is being skipped.
\<close>

fun split_W :: "string \<Rightarrow> bool \<Rightarrow> string \<Rightarrow> string list" where
  "split_W cur insep [] = [cur]"
| "split_W cur insep (c # cs) =
     (if is_word c then split_W (cur @ [c]) False cs
      else if insep then split_W cur True cs
      else cur # split_W [] True cs)"

text \<open>
  The regular expressions of the source use literals, the classes \<open>\s\<close>, \<open>\w\<close>,
  \<open>\d\<close>, \<open>.\<close> and a bracket class, the quantifiers \<open>+\<close>, \<open>*\<close> and \<open>?\<close> on a
  single class, the word boundary \<open>\b\<close>, sequencing and alternation.
\<close>

datatype cls = Space | Word | Digit | AnyChar | OneOf string

fun in_cls :: "cls \<Rightarrow> char \<Rightarrow> bool" where
  "in_cls Space c = is_space c"
| "in_cls Word c = is_word c"
| "in_cls Digit c = is_digit c"
| "in_cls AnyChar c = (c \<noteq> CHR 0x0A \<and> c \<noteq> CHR 0x0D)"
| "in_cls (OneOf s) c = List.member s c"

datatype rx =
    Lit string
  | One cls
  | Star cls
  | Plus cls
  | Opt cls
  | WordB
  | Seq rx rx
  | Alt rx rx

text \<open>
  A position of the matcher is the character before it (if any) and the text after it.
  \<open>rx_run r p\<close> lists the positions where a match of \<open>r\<close> started at \<open>p\<close> can end, in
  the order in which a backtracking matcher tries them (greedy quantifiers: longest
  first; alternation: left first).
\<close>

type_synonym pos = "char option \<times> string"

fun star_run :: "cls \<Rightarrow> char option \<Rightarrow> string \<Rightarrow> pos list" where
  "star_run k prev [] = [(prev, [])]"
| "star_run k prev (c # cs) =
     (if in_cls k c then star_run k (Some c) cs @ [(prev, c # cs)] else [(prev, c # cs)])"

definition word_boundary :: "pos \<Rightarrow> bool" where
  "word_boundary p =
     (case p of (prev, rest) \<Rightarrow>
        (case prev of None \<Rightarrow> False | Some a \<Rightarrow> is_word a)
        \<noteq> (case rest of [] \<Rightarrow> False | b # _ \<Rightarrow> is_word b))"

fun rx_run :: "rx \<Rightarrow> pos \<Rightarrow> pos list" where
  "rx_run (Lit s) (prev, rest) =
     (if s = [] then [(prev, rest)]
      else if take (length s) rest = s then [(Some (last s), drop (length s) rest)]
      else [])"
| "rx_run (One k) (prev, rest) =
     (case rest of [] \<Rightarrow> [] | c # cs \<Rightarrow> if in_cls k c then [(Some c, cs)] else [])"
| "rx_run (Star k) (prev, rest) = star_run k prev rest"
| "rx_run (Plus k) (prev, rest) =
     (case rest of [] \<Rightarrow> [] | c # cs \<Rightarrow> if in_cls k c then star_run k (Some c) cs else [])"
| "rx_run (Opt k) (prev, rest) =
     (case rest of [] \<Rightarrow> [(prev, rest)]
      | c # cs \<Rightarrow> if in_cls k c then [(Some c, cs), (prev, rest)] else [(prev, rest)])"
| "rx_run WordB p = (if word_boundary p then [p] else [])"
| "rx_run (Seq r1 r2) p = concat (map (rx_run r2) (rx_run r1 p))"
| "rx_run (Alt r1 r2) p = rx_run r1 p @ rx_run r2 p"

text \<open>\<open>pattern.test(s)\<close>: a match starts at some position of \<open>s\<close>.\<close>

fun rx_search :: "rx \<Rightarrow> char option \<Rightarrow> string \<Rightarrow> bool" where
  "rx_search r prev [] = (rx_run r (prev, []) \<noteq> [])"
| "rx_search r prev (c # cs) = (rx_run r (prev, c # cs) \<noteq> [] \<or> rx_search r (Some c) cs)"

definition rx_test :: "rx \<Rightarrow> string \<Rightarrow> bool" where
  "rx_test r s = rx_search r None s"

text \<open>
  \<open>s.match(pattern)\<close> for a pattern with the \<open>g\<close> flag: the matched texts from left
  to right, each search resuming where the last match ended (one character further
  after an empty match). The result \<open>null\<close> of JavaScript is the empty list here; the
  source treats both alike.
\<close>

function rx_match_all :: "rx \<Rightarrow> char option \<Rightarrow> string \<Rightarrow> string list" where
  "rx_match_all r prev s =
     (case rx_run r (prev, s) of
        [] \<Rightarrow> (case s of [] \<Rightarrow> [] | c # cs \<Rightarrow> rx_match_all r (Some c) cs)
      | (prev', rest) # _ \<Rightarrow>
          (if length rest < length s
           then take (length s - length rest) s # rx_match_all r prev' rest
           else [] # (case s of [] \<Rightarrow> [] | c # cs \<Rightarrow> rx_match_all r (Some c) cs)))"
  by pat_completeness auto
termination
  by (relation "measure (\<lambda>(r, prev, s). length s)") auto

text \<open>Shorthands for writing the patterns down.\<close>

fun seqs :: "rx list \<Rightarrow> rx" where
  "seqs [] = Lit []"
| "seqs [r] = r"
| "seqs (r # rs) = Seq r (seqs rs)"

fun alts :: "string list \<Rightarrow> rx" where
  "alts [] = Lit []"
| "alts [s] = Lit s"
| "alts (s # ss) = Alt (Lit s) (alts ss)"

section \<open>The user-specific predicate\<close>

text \<open>
  \<open>isUserSpecificFeedback\<close> lower-cases the text and tests three batteries of
  patterns against the lower-cased text, in order. The patterns are transcribed as they
  stand in the source; those written with an upper-case \<open>I\<close> keep it. Two patterns
  carry the \<open>i\<close> flag; their literals are lower-case and the text they are tested on
  is already lower-cased, so the flag changes nothing and they are tested like the
  others.
\<close>

definition userSpecificPatterns :: "rx list" where
  "userSpecificPatterns =
   [ seqs [WordB, Lit ''my'', Plus Space,
           alts [''subscription'', ''account'', ''billing'', ''payment'', ''data'',
                 ''profile'', ''settings''], WordB],
     seqs [WordB, Lit ''I'', Plus Space,
           alts [''am'', ''was'', ''have'', ''had'', ''see'', ''saw'', ''got'', ''received'',
                 ''paid'', ''charged''], WordB],
     seqs [WordB, Lit ''my'', Plus Space, alts [''user'', ''account''], Plus Space,
           alts [''id'', ''number'', ''email''], WordB],
     seqs [WordB, alts [''account'', ''subscription'', ''order''], Plus Space,
           alts [''id'', ''number'', ''#''], Star Space, Opt (OneOf '':-''), Star Space,
           Plus Word],
     seqs [WordB, alts [''user'', ''customer''], Plus Space, alts [''id'', ''number''],
           Star Space, Opt (OneOf '':-''), Star Space, Plus Word],
     seqs [WordB, alts [''my'', ''I''], Plus Space, alts [''subscription'', ''account''],
           Plus Space, alts [''expired'', ''cancelled'', ''renewed'', ''charged'']],
     seqs [WordB, Lit ''I'', Plus Space, alts [''can't'', ''cannot'', ''unable''],
           Plus Space, Lit ''to'', Plus Space, alts [''access'', ''see'', ''view''],
           Plus Space, Lit ''my''],
     seqs [WordB, Lit ''my'', Plus Space, alts [''subscription'', ''account''], Plus Space,
           alts [''got'', ''was''], Plus Space, alts [''cancelled'', ''expired'', ''charged'']],
     seqs [WordB, alts [''seeing'', ''showing'', ''displaying''], Plus Space,
           alts [''wrong'', ''incorrect'', ''different''], Plus Space,
           alts [''data'', ''information'', ''details'']],
     seqs [WordB, Lit ''my'', Plus Space, alts [''data'', ''information'', ''details''],
           Plus Space, alts [''is'', ''are'', ''shows'', ''showing'']],
     seqs [WordB, Lit ''I'', Plus Space, alts [''was'', ''got''], Plus Space,
           alts [''charged'', ''billed'', ''refunded''], Plus Space],
     seqs [WordB, Lit ''my'', Plus Space, alts [''payment'', ''charge'', ''billing''],
           Plus Space, alts [''failed'', ''succeeded'', ''processed'']] ]"

definition cumulativePatterns :: "rx list" where
  "cumulativePatterns =
   [ seqs [WordB, alts [''app'', ''application'', ''system''], Plus Space,
           alts [''crashes'', ''crash'', ''crashing'']],
     seqs [WordB, alts [''when'', ''while''], Plus Space,
           alts [''going'', ''switching'', ''changing'', ''opening'', ''closing'']],
     seqs [WordB,
           Alt (Lit ''theme'') (Alt (seqs [Lit ''dark'', Plus Space, Lit ''mode''])
                                    (Lit ''feature'')),
           Plus Space,
           Alt (seqs [Lit ''not'', Plus Space, Lit ''working''])
               (Alt (Lit ''broken'') (seqs [Lit ''doesn't'', Plus Space, Lit ''work'']))],
     seqs [WordB, alts [''all'', ''every'', ''many'', ''users'', ''people''], Plus Space,
           alts [''are'', ''can't'', ''cannot'']],
     seqs [WordB, alts [''affecting'', ''affects''], Plus Space,
           alts [''all'', ''every'', ''many'', ''users'']] ]"

definition defaultPattern :: rx where
  "defaultPattern =
     seqs [WordB, alts [''my'', ''I''], Plus Space, Star AnyChar, WordB,
           alts [''subscription'', ''account'', ''billing'', ''payment'', ''data''], WordB]"

definition isUserSpecificFeedback :: "string \<Rightarrow> bool" where
  "isUserSpecificFeedback content =
     (let lower = toLowerCase content in
      if list_ex (\<lambda>pattern. rx_test pattern lower) userSpecificPatterns then True
      else if list_ex (\<lambda>pattern. rx_test pattern lower) cumulativePatterns then False
      else if rx_test defaultPattern lower then True
      else False)"

section \<open>Key phrases and significant words\<close>

definition keyPhrasePatterns :: "rx list" where
  "keyPhrasePatterns =
   [ seqs [Lit ''login'', Plus Space, Plus Word],
     seqs [Lit ''billing'', Plus Space, Plus Word],
     seqs [Lit ''payment'', Plus Space, Plus Word],
     seqs [Lit ''crash'', Star Word],
     seqs [Lit ''error'', Plus Space, Plus Digit],
     seqs [WordB, alts [''can't'', ''cannot'', ''won't''], Plus Space, Plus Word],
     seqs [Lit ''dark'', Plus Space, Lit ''mode''],
     seqs [Lit ''rate'', Plus Space, Lit ''limit''],
     seqs [Plus Digit, Plus Space, Lit ''error''],
     seqs [Lit ''login'', Plus Space, Lit ''crash''],
     seqs [Lit ''login'', Plus Space, Lit ''bug''],
     seqs [Lit ''billing'', Plus Space, Lit ''page''],
     seqs [Lit ''payment'', Plus Space, Lit ''failed''],
     seqs [Lit ''theme'', Plus Space, Plus Word],
     seqs [Lit ''toggle'', Plus Space, Plus Word],
     seqs [Lit ''dark'', Plus Space, Lit ''mode'', Plus Space, Star Word],
     seqs [Lit ''resume'', Plus Space, Lit ''crash''],
     seqs [Lit ''background'', Plus Space, Plus Word],
     seqs [Lit ''foreground'', Plus Space, Plus Word],
     seqs [Lit ''force'', Plus Space, Lit ''close''],
     seqs [Lit ''double'', Plus Space, Lit ''login''],
     seqs [Lit ''login'', Plus Space, Lit ''twice''],
     seqs [Lit ''second'', Plus Space, Lit ''login''],
     seqs [Lit ''first'', Plus Space, Lit ''login''],
     seqs [Lit ''2'', Plus Space, Lit ''attempts''] ]"

text \<open>
  The set of phrases is kept as the list of the phrases in the order they were added;
  the source only asks whether two such sets share a phrase.
\<close>

definition extractKeyPhrases :: "string \<Rightarrow> string list" where
  "extractKeyPhrases text =
     (let lower = toLowerCase text;
          phrases = concat (map (\<lambda>pattern. map trim (rx_match_all pattern None lower))
                                keyPhrasePatterns);
          phrases = (if (str_includes lower ''theme'' \<or> str_includes lower ''dark mode''
                           \<or> str_includes lower ''toggle'')
                        \<and> (str_includes lower ''broken'' \<or> str_includes lower ''not working''
                           \<or> str_includes lower ''doesn't'' \<or> str_includes lower ''fails''
                           \<or> str_includes lower ''no change'')
                     then phrases @ [''theme_bug''] else phrases);
          phrases = (if (str_includes lower ''resume'' \<or> str_includes lower ''background''
                           \<or> str_includes lower ''foreground'' \<or> str_includes lower ''recents'')
                        \<and> str_includes lower ''crash''
                     then phrases @ [''resume_crash''] else phrases)
      in phrases)"

definition stopWords :: "string list" where
  "stopWords = [''the'', ''this'', ''that'', ''with'', ''from'', ''when'', ''will'', ''need'',
                ''very'', ''can'', ''cant'', ''not'', ''and'', ''are'', ''for'', ''has'', ''have'',
                ''was'', ''were'', ''all'', ''but'', ''get'', ''got'']"

text \<open>\<open>text.split(/\W+/).filter(w => w.length > 2 && !stopWords.has(w))\<close>.\<close>

definition significantWords :: "string \<Rightarrow> string list" where
  "significantWords text =
     filter (\<lambda>w. 2 < length w \<and> \<not> List.member stopWords w) (split_W [] False text)"

section \<open>Data model\<close>

text \<open>
  Optional fields of the TypeScript interfaces and nullable columns are options. The
  operator \<open>x || d\<close> of the source takes \<open>d\<close> when \<open>x\<close> is missing, \<open>0\<close> or the
  empty string.
\<close>

definition or_int :: "int option \<Rightarrow> int \<Rightarrow> int" where
  "or_int x d = (case x of None \<Rightarrow> d | Some v \<Rightarrow> if v = 0 then d else v)"

definition or_real :: "real option \<Rightarrow> real \<Rightarrow> real" where
  "or_real x d = (case x of None \<Rightarrow> d | Some v \<Rightarrow> if v = 0 then d else v)"

definition or_str :: "string option \<Rightarrow> string \<Rightarrow> string" where
  "or_str x d = (case x of None \<Rightarrow> d | Some v \<Rightarrow> if v = [] then d else v)"

definition truthy_int :: "int option \<Rightarrow> bool" where
  "truthy_int x = (case x of None \<Rightarrow> False | Some v \<Rightarrow> v \<noteq> 0)"

definition truthy_str :: "string option \<Rightarrow> bool" where
  "truthy_str x = (case x of None \<Rightarrow> False | Some v \<Rightarrow> v \<noteq> [])"

record Feedback =
  fb_id :: string
  content :: string
  source :: string
  timestamp :: int
  user :: "string option"
  link :: "string option"

record ClassificationResult =
  cr_severity :: string
  cr_category :: string
  cr_confidence :: real
  cr_one_line_summary :: string
  cr_reasoning :: string

datatype FixStatus = Open | FixDeployed | Resolved | Failed | WontFix

record Cluster =
  cluster_id :: string
  category :: string
  severity :: string
  centroid :: "real list"
  count :: nat
  first_seen :: int
  last_seen :: int
  representative_feedback_id :: string
  representative_feedback :: string
  summary :: string
  suggested_action :: string
  user_impact :: string
  priority_score :: real
  sentiment_score :: real
  top_sources :: "string list"
  fix_status :: "FixStatus option"
  fix_deployed_date :: "int option"
  fix_deployed_version :: "string option"
  rollout_period_days :: "int option"
  original_severity :: "string option"
  current_severity :: "string option"
  reports_before_fix :: "int option"
  reports_after_fix :: "int option"
  fix_notes :: "string option"

record PriorityIssue =
  pi_priority_score :: real
  pi_priority_level :: string
  pi_cluster :: Cluster

text \<open>
  A row of the table \<open>clusters\<close> as the query returns it. The columns the source reads
  through \<open>||\<close>, and the fix-tracking columns, are nullable; the others are the ones every
  insert of the program fills.
\<close>

record ClusterRow =
  r_cluster_id :: string
  r_category :: string
  r_severity :: string
  r_centroid :: "string option"
  r_count :: nat
  r_first_seen :: int
  r_last_seen :: int
  r_representative_feedback_id :: string
  r_representative_feedback :: string
  r_summary :: "string option"
  r_suggested_action :: "string option"
  r_user_impact :: "string option"
  r_priority_score :: "real option"
  r_sentiment_score :: "real option"
  r_top_sources :: "string option"
  r_fix_status :: "FixStatus option"
  r_fix_deployed_date :: "int option"
  r_fix_deployed_version :: "string option"
  r_rollout_period_days :: "int option"
  r_original_severity :: "string option"
  r_current_severity :: "string option"
  r_reports_before_fix :: "int option"
  r_reports_after_fix :: "int option"
  r_fix_notes :: "string option"

text \<open>
  What \<open>JSON.parse\<close> makes of the text of a centroid column: it throws, or it gives a
  value that is not an array, or an array (of numbers, as the program stores them).
\<close>

datatype parsed = ParseError | NotArray | Arr "real list"

text \<open>
  The collaborators of the clustering pass. The classifier, the embedder and the UUID
  generator are external and may answer differently at each call, so they take the
  number of the call; \<open>JSON.parse\<close> is the language's (\<open>parse_sources\<close> is
  \<open>None\<close> when it throws on the text of a sources column, else the array of source
  names, as the program stores them).
\<close>

record Env =
  classifyFeedback :: "nat \<Rightarrow> string \<Rightarrow> ClassificationResult"
  generateEmbedding :: "nat \<Rightarrow> string \<Rightarrow> real list"
  randomUUID :: "nat \<Rightarrow> string"
  parse_centroid :: "string \<Rightarrow> parsed"
  parse_sources :: "string \<Rightarrow> string list option"
  summarizeCluster :: "Cluster \<Rightarrow> string \<times> string \<times> string"

record Config =
  similarityThreshold :: real
  embeddingDimension :: nat
  clusterLookbackDays :: int
  severityWeight :: real
  frequencyWeight :: real
  recencyWeight :: real
  sentimentWeight :: real
  threshold_p0 :: real
  threshold_p1 :: real
  threshold_p2 :: real
  maxIssues :: nat

text \<open>The values of \<open>config.example.ts\<close>.\<close>

definition default_config :: Config where
  "default_config =
     \<lparr> similarityThreshold = 0.86, embeddingDimension = 1024, clusterLookbackDays = 7,
       severityWeight = 0.55, frequencyWeight = 0.25, recencyWeight = 0.10,
       sentimentWeight = 0.10, threshold_p0 = 70, threshold_p1 = 50, threshold_p2 = 30,
       maxIssues = 15 \<rparr>"

text \<open>
  The writes of a pass to the table \<open>clusters\<close>, in the order they are issued: the
  inserts and the four kinds of \<open>UPDATE ... WHERE cluster_id = ?\<close>, each with the id it
  is bound to. The pass issues no \<open>DELETE\<close>.
\<close>

datatype db_write =
    InsertCluster Cluster string
  | UpdateCluster string nat int "string list" "real list"
  | UpdateFixStatus string FixStatus
  | UpdateFixFailed string string
  | UpdateReportsAfter string int
  | UpdatePriority string real
  | UpdateSummary string string string string

fun write_target :: "db_write \<Rightarrow> string" where
  "write_target (InsertCluster c title) = cluster_id c"
| "write_target (UpdateCluster cid n t srcs cen) = cid"
| "write_target (UpdateFixStatus cid s) = cid"
| "write_target (UpdateFixFailed cid sev) = cid"
| "write_target (UpdateReportsAfter cid n) = cid"
| "write_target (UpdatePriority cid p) = cid"
| "write_target (UpdateSummary cid s a u) = cid"

section \<open>Loading the stored clusters\<close>

text \<open>
  The body of the loop over the rows: \<open>None\<close> when the row is left out, because
  \<open>JSON.parse\<close> threw (the \<open>catch\<close> logs and goes on) or because the centroid is not
  a non-empty array (\<open>continue\<close>).
\<close>

definition parse_row :: "Env \<Rightarrow> ClusterRow \<Rightarrow> Cluster option" where
  "parse_row env row =
     (case parse_centroid env (or_str (r_centroid row) ''[]'') of
        ParseError \<Rightarrow> None
      | NotArray \<Rightarrow> None
      | Arr cen \<Rightarrow>
          (case parse_sources env (or_str (r_top_sources row) ''[]'') of
             None \<Rightarrow> None
           | Some srcs \<Rightarrow>
               if cen = [] then None
               else Some
                 \<lparr> cluster_id = r_cluster_id row,
                   category = r_category row,
                   severity = or_str (r_current_severity row) (r_severity row),
                   centroid = cen,
                   count = r_count row,
                   first_seen = r_first_seen row,
                   last_seen = r_last_seen row,
                   representative_feedback_id = r_representative_feedback_id row,
                   representative_feedback = r_representative_feedback row,
                   summary = or_str (r_summary row) [],
                   suggested_action = or_str (r_suggested_action row) [],
                   user_impact = or_str (r_user_impact row) [],
                   priority_score = or_real (r_priority_score row) 0,
                   sentiment_score = or_real (r_sentiment_score row) 0.5,
                   top_sources = srcs,
                   fix_status = Some (case r_fix_status row of None \<Rightarrow> Open | Some s \<Rightarrow> s),
                   fix_deployed_date = r_fix_deployed_date row,
                   fix_deployed_version = r_fix_deployed_version row,
                   rollout_period_days = Some (or_int (r_rollout_period_days row) 7),
                   original_severity = Some (or_str (r_original_severity row) (r_severity row)),
                   current_severity = Some (or_str (r_current_severity row) (r_severity row)),
                   reports_before_fix = r_reports_before_fix row,
                   reports_after_fix = r_reports_after_fix row,
                   fix_notes = r_fix_notes row \<rparr>))"

definition load_clusters :: "Env \<Rightarrow> ClusterRow list \<Rightarrow> Cluster list" where
  "load_clusters env rows = List.map_filter (parse_row env) rows"

section \<open>Matching and aggregation\<close>

text \<open>The guard of both matching loops: a cluster of one member whose text is user-specific.\<close>

definition is_user_specific_cluster :: "Cluster \<Rightarrow> bool" where
  "is_user_specific_cluster c \<longleftrightarrow>
     count c = 1 \<and> isUserSpecificFeedback (representative_feedback c)"

text \<open>
  A loop \<open>for (const cluster of clusters) { if (...) continue; if (...) { matchedCluster
  = cluster; break; } }\<close> selects the first cluster that passes; the selected object is
  given by its index in the array.
\<close>

fun find_first :: "('a \<Rightarrow> bool) \<Rightarrow> 'a list \<Rightarrow> nat option" where
  "find_first P [] = None"
| "find_first P (x # xs) = (if P x then Some 0 else map_option Suc (find_first P xs))"

definition embedding_candidate :: "Config \<Rightarrow> real list \<Rightarrow> Cluster \<Rightarrow> bool" where
  "embedding_candidate cfg embedding c \<longleftrightarrow>
     \<not> is_user_specific_cluster c
     \<and> list_ex (\<lambda>val. val \<noteq> 0) (centroid c)
     \<and> js_gt (cosineSimilarity embedding (centroid c)) (similarityThreshold cfg)"

definition phrase_match :: "string \<Rightarrow> Cluster \<Rightarrow> bool" where
  "phrase_match feedbackLower c =
     (let clusterLower = toLowerCase (representative_feedback c);
          feedbackPhrases = extractKeyPhrases feedbackLower;
          clusterPhrases = extractKeyPhrases clusterLower;
          commonPhrases = filter (\<lambda>p. List.member clusterPhrases p) feedbackPhrases
      in commonPhrases \<noteq> [])"

definition keyword_match :: "ClassificationResult \<Rightarrow> string \<Rightarrow> Cluster \<Rightarrow> bool" where
  "keyword_match classification feedbackLower c =
     (category c = cr_category classification \<and> severity c = cr_severity classification
      \<and> (let clusterLower = toLowerCase (representative_feedback c);
              feedbackWords = significantWords feedbackLower;
              clusterWords = significantWords clusterLower;
              commonWords = filter (\<lambda>w. List.member clusterWords w) feedbackWords
          in 1 \<le> length commonWords))"

definition text_candidate :: "ClassificationResult \<Rightarrow> string \<Rightarrow> Cluster \<Rightarrow> bool" where
  "text_candidate classification feedbackLower c \<longleftrightarrow>
     \<not> is_user_specific_cluster c
     \<and> (phrase_match feedbackLower c \<or> keyword_match classification feedbackLower c)"

definition embedding_tier :: "Config \<Rightarrow> real list \<Rightarrow> Cluster list \<Rightarrow> nat option" where
  "embedding_tier cfg embedding cs =
     (if list_ex (\<lambda>val. val \<noteq> 0) embedding
      then find_first (embedding_candidate cfg embedding) cs
      else None)"

definition text_tier :: "ClassificationResult \<Rightarrow> string \<Rightarrow> Cluster list \<Rightarrow> nat option" where
  "text_tier classification text cs =
     find_first (text_candidate classification (toLowerCase text)) cs"

text \<open>
  The object literal of a new cluster, the same in the user-specific branch and in the
  no-match branch; the fix-tracking fields are absent.
\<close>

definition new_cluster :: "string \<Rightarrow> ClassificationResult \<Rightarrow> Feedback \<Rightarrow> real list \<Rightarrow> Cluster" where
  "new_cluster clusterId classification feedback embedding =
     \<lparr> cluster_id = clusterId,
       category = cr_category classification,
       severity = cr_severity classification,
       centroid = embedding,
       count = 1,
       first_seen = timestamp feedback,
       last_seen = timestamp feedback,
       representative_feedback_id = fb_id feedback,
       representative_feedback = content feedback,
       summary = [],
       suggested_action = [],
       user_impact = [],
       priority_score = 0,
       sentiment_score = 0.5,
       top_sources = [source feedback],
       fix_status = None,
       fix_deployed_date = None,
       fix_deployed_version = None,
       rollout_period_days = None,
       original_severity = None,
       current_severity = None,
       reports_before_fix = None,
       reports_after_fix = None,
       fix_notes = None \<rparr>"

text \<open>
  The update of the matched cluster: the count is incremented first, and the centroid
  is recomputed with the new count when the two lengths agree.
\<close>

definition add_to_cluster :: "Feedback \<Rightarrow> real list \<Rightarrow> Cluster \<Rightarrow> Cluster" where
  "add_to_cluster feedback embedding c =
     (let cnt = count c + 1 in
      c \<lparr> count := cnt,
          last_seen := max (last_seen c) (timestamp feedback),
          top_sources :=
            (if List.member (top_sources c) (source feedback) then top_sources c
             else top_sources c @ [source feedback]),
          centroid :=
            (if length embedding = length (centroid c)
             then map (\<lambda>i. (centroid c ! i * (real cnt - 1) + embedding ! i) / real cnt)
                      [0..<length (centroid c)]
             else centroid c) \<rparr>)"

definition upper_char :: "char \<Rightarrow> char" where
  "upper_char c =
     (case map_of (zip ''abcdefghijklmnopqrstuvwxyz'' ''ABCDEFGHIJKLMNOPQRSTUVWXYZ'') c of
        Some d \<Rightarrow> d
      | None \<Rightarrow> c)"

definition issue_title :: "string \<Rightarrow> string" where
  "issue_title cat = map upper_char (take 1 cat) @ drop 1 cat @ '' Issue''"

text \<open>
  The state of the loop over the feedbacks: the working set of clusters, the table
  \<open>cluster_members\<close> as pairs (cluster id, feedback id), the set \<open>processed\<close>, the
  writes to \<open>clusters\<close> so far and the number of calls made to the collaborators.
\<close>

record CState =
  clusters :: "Cluster list"
  members :: "(string \<times> string) list"
  processed :: "string list"
  writes :: "db_write list"
  tick :: nat

definition insert_member_if_absent :: "string \<Rightarrow> string \<Rightarrow> (string \<times> string) list \<Rightarrow> (string \<times> string) list" where
  "insert_member_if_absent cid fid ms =
     (if List.member ms (cid, fid) then ms else ms @ [(cid, fid)])"

definition process_user_specific :: "Env \<Rightarrow> CState \<Rightarrow> Feedback \<Rightarrow> CState" where
  "process_user_specific env st feedback =
     (let classification = classifyFeedback env (tick st) (content feedback);
          embedding = generateEmbedding env (tick st + 1) (content feedback);
          clusterId = randomUUID env (tick st + 2);
          title = cr_category classification @ '' - Individual Support'';
          newCluster = new_cluster clusterId classification feedback embedding
      in st \<lparr> clusters := clusters st @ [newCluster],
              writes := writes st @ [InsertCluster newCluster title],
              members := members st @ [(clusterId, fb_id feedback)],
              processed := processed st @ [fb_id feedback],
              tick := tick st + 3 \<rparr>)"

definition process_matched :: "CState \<Rightarrow> Feedback \<Rightarrow> real list \<Rightarrow> nat \<Rightarrow> nat \<Rightarrow> CState" where
  "process_matched st feedback embedding t i =
     (let matched = add_to_cluster feedback embedding (clusters st ! i)
      in st \<lparr> clusters := (clusters st)[i := matched],
              members := insert_member_if_absent (cluster_id matched) (fb_id feedback) (members st),
              writes := writes st @ [UpdateCluster (cluster_id matched) (count matched)
                                       (last_seen matched) (top_sources matched) (centroid matched)],
              processed := processed st @ [fb_id feedback],
              tick := t \<rparr>)"

definition process_unmatched :: "Env \<Rightarrow> CState \<Rightarrow> Feedback \<Rightarrow> real list \<Rightarrow> nat \<Rightarrow> CState" where
  "process_unmatched env st feedback embedding t =
     (let classification = classifyFeedback env t (content feedback);
          clusterId = randomUUID env (t + 1);
          title = issue_title (cr_category classification);
          newCluster = new_cluster clusterId classification feedback embedding
      in st \<lparr> clusters := clusters st @ [newCluster],
              writes := writes st @ [InsertCluster newCluster title],
              members := insert_member_if_absent clusterId (fb_id feedback) (members st),
              processed := processed st @ [fb_id feedback],
              tick := t + 2 \<rparr>)"

text \<open>
  The two matching tiers on the working set: the index of the matched cluster, if any,
  and the number of collaborator calls after them. The classifier is called only when
  the embedding tier found nothing.
\<close>

definition find_match :: "Env \<Rightarrow> Config \<Rightarrow> Feedback \<Rightarrow> real list \<Rightarrow> nat \<Rightarrow> Cluster list \<Rightarrow> nat option \<times> nat" where
  "find_match env cfg feedback embedding t cs =
     (case embedding_tier cfg embedding cs of
        Some i \<Rightarrow> (Some i, t)
      | None \<Rightarrow>
          (text_tier (classifyFeedback env t (content feedback)) (content feedback) cs, t + 1))"

text \<open>One turn of the loop over the feedbacks.\<close>

definition process_feedback :: "Env \<Rightarrow> Config \<Rightarrow> string list \<Rightarrow> CState \<Rightarrow> Feedback \<Rightarrow> CState" where
  "process_feedback env cfg alreadyClustered st feedback =
     (if List.member (processed st) (fb_id feedback) then st
      else if List.member alreadyClustered (fb_id feedback)
      then st \<lparr> processed := processed st @ [fb_id feedback] \<rparr>
      else if isUserSpecificFeedback (content feedback)
      then process_user_specific env st feedback
      else
        (let embedding = generateEmbedding env (tick st) (content feedback)
         in case find_match env cfg feedback embedding (tick st + 1) (clusters st) of
              (Some i, t) \<Rightarrow> process_matched st feedback embedding t i
            | (None, t) \<Rightarrow> process_unmatched env st feedback embedding t))"

text \<open>
  The clustering pass, from the rows of the active clusters, the table
  \<open>cluster_members\<close> and the batch of feedbacks.
\<close>

definition initial_state :: "Env \<Rightarrow> ClusterRow list \<Rightarrow> (string \<times> string) list \<Rightarrow> CState" where
  "initial_state env rows ms =
     \<lparr> clusters = load_clusters env rows, members = ms, processed = [], writes = [], tick = 0 \<rparr>"

definition clusterFeedbacksWithEmbeddings ::
  "Env \<Rightarrow> Config \<Rightarrow> ClusterRow list \<Rightarrow> (string \<times> string) list \<Rightarrow> Feedback list \<Rightarrow> CState" where
  "clusterFeedbacksWithEmbeddings env cfg rows ms feedbacks =
     foldl (process_feedback env cfg (map snd ms)) (initial_state env rows ms) feedbacks"

text \<open>
  The bookkeeping invariant of the loop: every feedback in \<open>processed\<close> was
  clustered before the pass or has a membership now.
\<close>

definition recorded :: "string list \<Rightarrow> CState \<Rightarrow> bool" where
  "recorded already st \<longleftrightarrow>
     set (processed st) \<subseteq> set already \<union> snd ` set (members st)"

text \<open>
  A cluster built from a first member and the members merged into it afterwards, one
  at a time: the new-cluster literal, then the update of the matched cluster for each.
\<close>

definition merge_all :: "Cluster \<Rightarrow> (Feedback \<times> real list) list \<Rightarrow> Cluster" where
  "merge_all c items = foldl (\<lambda>c item. add_to_cluster (fst item) (snd item) c) c items"

text \<open>The specification's words: the arithmetic mean of vectors of dimension \<open>d\<close>.\<close>

definition spec_mean :: "nat \<Rightarrow> real list list \<Rightarrow> real list" where
  "spec_mean d es = map (\<lambda>i. (\<Sum>e\<leftarrow>es. e ! i) / real (length es)) [0..<d]"

section \<open>Fix lifecycle\<close>

text \<open>
  The body of the loop "Evaluate fix status for clusters with deployed fixes" of
  \<open>generateMorningDigest\<close>, for one cluster: the cluster after it and the writes it
  issues. \<open>now\<close> stands for \<open>Date.now()\<close>, in milliseconds. The day count is the
  exact quotient; the two averages and their comparison are computed in doubles, in the
  order of the source:
  \<^verbatim>\<open>
  const avgBeforeFix = (cluster.reports_before_fix || cluster.count) / 7;
  const avgAfterFix = (cluster.reports_after_fix || 0) / rolloutDays;
  if (avgAfterFix < avgBeforeFix * 0.2) {
  \<close>
  where \<open>0.2\<close> is the double nearest to one fifth.
\<close>

definition daysSinceFix :: "int \<Rightarrow> int \<Rightarrow> real" where
  "daysSinceFix now deployed = real_of_int (now - deployed) / 86400000"

definition rolloutDays :: "Cluster \<Rightarrow> int" where
  "rolloutDays c = or_int (rollout_period_days c) 7"

definition avgBeforeFix :: "Cluster \<Rightarrow> jsnum" where
  "avgBeforeFix c =
     js_div (js_of_int (or_int (reports_before_fix c) (int (count c)))) (Num 7)"

definition avgAfterFix :: "Cluster \<Rightarrow> jsnum" where
  "avgAfterFix c =
     js_div (js_of_int (or_int (reports_after_fix c) 0)) (js_of_int (rolloutDays c))"

definition evaluate_fix :: "int \<Rightarrow> Cluster \<Rightarrow> Cluster \<times> db_write list" where
  "evaluate_fix now c =
     (if fix_status c = Some FixDeployed \<and> truthy_int (fix_deployed_date c) then
        if daysSinceFix now (or_int (fix_deployed_date c) 0) > real_of_int (rolloutDays c) then
          if js_lt (avgAfterFix c) (js_mul (avgBeforeFix c) (fl 0.2))
          then (c \<lparr> fix_status := Some Resolved \<rparr>, [UpdateFixStatus (cluster_id c) Resolved])
          else
            (let sev = or_str (original_severity c) (severity c)
             in (c \<lparr> fix_status := Some Failed, current_severity := Some sev \<rparr>,
                 [UpdateFixFailed (cluster_id c) sev]))
        else
          (let newReportsAfter = or_int (reports_after_fix c) 0 + 1
           in (c \<lparr> reports_after_fix := Some newReportsAfter \<rparr>,
               [UpdateReportsAfter (cluster_id c) newReportsAfter]))
      else (c, []))"

text \<open>
  The specification's words for the outcome once the rollout window has elapsed, on the
  three stored numbers: resolved when \<open>reports_after_fix / rollout_period_days\<close> is
  below \<open>0.2 * (reports_before_fix / 7)\<close>, failed otherwise.
\<close>

definition spec_fix_outcome :: "int \<Rightarrow> int \<Rightarrow> int \<Rightarrow> FixStatus" where
  "spec_fix_outcome before after rollout =
     (if real_of_int after / real_of_int rollout < 0.2 * (real_of_int before / 7)
      then Resolved else Failed)"

section \<open>Priority score\<close>

text \<open>
  \<open>severityMap\<close> is the object literal of the source read at its own keys. A severity
  that names a property inherited from \<open>Object.prototype\<close> (such as
  \<open>constructor\<close>), for which the lookup of the source yields a function and the
  score \<open>NaN\<close>, is outside the model, where it has the default 50 of an unknown
  severity.
\<close>

definition severityMap :: "string \<Rightarrow> real option" where
  "severityMap = map_of [(''P0'', 100), (''P1'', 75), (''P2'', 50), (''P3'', 25)]"

definition effectiveSeverity :: "Cluster \<Rightarrow> string" where
  "effectiveSeverity c =
     (if fix_status c = Some FixDeployed \<and> truthy_str (current_severity c)
      then or_str (current_severity c) (severity c)
      else if fix_status c = Some Failed then or_str (original_severity c) (severity c)
      else severity c)"

definition severityScore :: "Cluster \<Rightarrow> real" where
  "severityScore c = or_real (severityMap (effectiveSeverity c)) 50"

definition frequencyScore :: "Cluster \<Rightarrow> real" where
  "frequencyScore c = min 100 (log 10 (real (count c + 1)) * 50)"

definition recencyScore :: "int \<Rightarrow> Cluster \<Rightarrow> real" where
  "recencyScore now c =
     (let hoursSinceLastSeen = real_of_int (now - last_seen c) / 3600000
      in max 0 (100 - hoursSinceLastSeen * 2))"

definition negativityScore :: "Cluster \<Rightarrow> real" where
  "negativityScore c = 100 - sentiment_score c * 100"

definition calculatePriorityScore :: "Config \<Rightarrow> int \<Rightarrow> Cluster \<Rightarrow> real" where
  "calculatePriorityScore cfg now c =
     severityScore c * severityWeight cfg
     + frequencyScore c * frequencyWeight cfg
     + recencyScore now c * recencyWeight cfg
     + negativityScore c * sentimentWeight cfg"

definition getPriorityLevel :: "Config \<Rightarrow> real \<Rightarrow> string" where
  "getPriorityLevel cfg score =
     (if score \<ge> threshold_p0 cfg then ''P0''
      else if score \<ge> threshold_p1 cfg then ''P1''
      else if score \<ge> threshold_p2 cfg then ''P2''
      else ''P3'')"

section \<open>Digest assembly\<close>

text \<open>
  \<open>xs.sort((a, b) => b.priority_score - a.priority_score)\<close>: a stable sort by
  descending score.
\<close>

definition sort_by_priority :: "Cluster list \<Rightarrow> Cluster list" where
  "sort_by_priority cs = sort_key (\<lambda>c. - priority_score c) cs"

definition isPositiveFeedback :: "Cluster \<Rightarrow> bool" where
  "isPositiveFeedback c =
     (let feedback = toLowerCase (representative_feedback c)
      in str_includes feedback ''great'' \<or> str_includes feedback ''love''
         \<or> str_includes feedback ''thanks'' \<or> str_includes feedback ''appreciated''
         \<or> str_includes feedback ''good work'' \<or> str_includes feedback ''excellent''
         \<or> str_includes feedback ''improved significantly'')"

definition to_issue :: "Config \<Rightarrow> Cluster \<Rightarrow> PriorityIssue" where
  "to_issue cfg c =
     \<lparr> pi_priority_score = priority_score c,
       pi_priority_level = getPriorityLevel cfg (priority_score c),
       pi_cluster = c \<rparr>"

text \<open>
  The five buckets of the digest, and \<open>top_issues\<close> as the digest stores it (the new
  issues, then the monitored and the failed ones that are not among them).
\<close>

record Digest =
  newTopIssues :: "PriorityIssue list"
  monitoringIssues :: "PriorityIssue list"
  failedFixes :: "PriorityIssue list"
  top_issues :: "PriorityIssue list"
  individual_support :: "PriorityIssue list"
  positive_feedback :: "PriorityIssue list"

definition not_among :: "PriorityIssue list \<Rightarrow> PriorityIssue \<Rightarrow> bool" where
  "not_among topIssues m \<longleftrightarrow>
     \<not> list_ex (\<lambda>t. cluster_id (pi_cluster t) = cluster_id (pi_cluster m)) topIssues"

definition assemble_digest :: "Config \<Rightarrow> Cluster list \<Rightarrow> Digest" where
  "assemble_digest cfg cs =
     (let generalClusters = filter (\<lambda>c. count c > 1) cs;
          allSingleItemClusters = filter (\<lambda>c. count c = 1) cs;
          individualSupportClusters = filter (\<lambda>c. \<not> isPositiveFeedback c) allSingleItemClusters;
          positiveFeedbackClusters = filter isPositiveFeedback allSingleItemClusters;
          newIssues = filter (\<lambda>c. fix_status c = None \<or> fix_status c = Some Open) generalClusters;
          fixDeployed = filter (\<lambda>c. fix_status c = Some FixDeployed) generalClusters;
          fixFailed = filter (\<lambda>c. fix_status c = Some Failed) generalClusters;
          newTop = map (to_issue cfg) (take (maxIssues cfg) (sort_by_priority newIssues));
          monitoring = map (to_issue cfg) (sort_by_priority fixDeployed);
          failed = map (to_issue cfg) (sort_by_priority fixFailed);
          individualSupport = map (to_issue cfg) (take 10 (sort_by_priority individualSupportClusters));
          positiveSupport = map (to_issue cfg) (sort_by_priority positiveFeedbackClusters)
      in \<lparr> newTopIssues = newTop,
           monitoringIssues = monitoring,
           failedFixes = failed,
           top_issues = newTop @ filter (not_among newTop) monitoring
                               @ filter (not_among newTop) failed,
           individual_support = individualSupport,
           positive_feedback = positiveSupport \<rparr>)"

text \<open>All the issues a digest shows, bucket by bucket.\<close>

definition digest_issues :: "Digest \<Rightarrow> PriorityIssue list" where
  "digest_issues d =
     newTopIssues d @ monitoringIssues d @ failedFixes d @ top_issues d
     @ individual_support d @ positive_feedback d"

text \<open>
  The three loops of \<open>generateMorningDigest\<close> over the working set after the
  clustering pass (fix evaluation, priority score, summary), each with its writes.
\<close>

definition evaluate_all :: "int \<Rightarrow> Cluster list \<Rightarrow> Cluster list \<times> db_write list" where
  "evaluate_all now cs =
     (map (\<lambda>c. fst (evaluate_fix now c)) cs, concat (map (\<lambda>c. snd (evaluate_fix now c)) cs))"

definition score_all :: "Config \<Rightarrow> int \<Rightarrow> Cluster list \<Rightarrow> Cluster list \<times> db_write list" where
  "score_all cfg now cs =
     (let scored = map (\<lambda>c. c \<lparr> priority_score := calculatePriorityScore cfg now c \<rparr>) cs
      in (scored, map (\<lambda>c. UpdatePriority (cluster_id c) (priority_score c)) scored))"

definition summarize :: "Env \<Rightarrow> Cluster \<Rightarrow> Cluster" where
  "summarize env c =
     (case summarizeCluster env c of
        (s, a, u) \<Rightarrow> c \<lparr> summary := s, suggested_action := a, user_impact := u \<rparr>)"

definition summarize_all :: "Env \<Rightarrow> Cluster list \<Rightarrow> Cluster list \<times> db_write list" where
  "summarize_all env cs =
     (let summarized = map (summarize env) cs
      in (summarized,
          map (\<lambda>c. UpdateSummary (cluster_id c) (summary c) (suggested_action c) (user_impact c))
              summarized))"

text \<open>
  \<open>generateMorningDigest\<close> up to the digest it builds: \<open>None\<close> when there is no
  unprocessed feedback (the function returns before clustering), else the digest, the
  working set after the pass and everything written to \<open>clusters\<close>. Storing and
  sending the digest come after and are left out.
\<close>

definition generateMorningDigest ::
  "Env \<Rightarrow> Config \<Rightarrow> int \<Rightarrow> ClusterRow list \<Rightarrow> (string \<times> string) list \<Rightarrow> Feedback list
     \<Rightarrow> (Digest \<times> CState) option" where
  "generateMorningDigest env cfg now rows ms feedbacks =
     (if feedbacks = [] then None
      else
        (let st = clusterFeedbacksWithEmbeddings env cfg rows ms feedbacks;
             ev = evaluate_all now (clusters st);
             sc = score_all cfg now (fst ev);
             su = summarize_all env (fst sc);
             sorted = sort_by_priority (fst su)
         in Some (assemble_digest cfg sorted,
                  st \<lparr> clusters := sorted,
                       writes := writes st @ snd ev @ snd sc @ snd su \<rparr>)))"

section \<open>Sample values\<close>

text \<open>Concrete inputs on which the theorems below are instantiated.\<close>

definition sample_feedback :: "string \<Rightarrow> string \<Rightarrow> Feedback" where
  "sample_feedback fid txt =
     \<lparr> fb_id = fid, content = txt, source = ''support'', timestamp = 1000,
       user = None, link = None \<rparr>"

definition sample_classification :: ClassificationResult where
  "sample_classification =
     \<lparr> cr_severity = ''P1'', cr_category = ''crash'', cr_confidence = 0.8,
       cr_one_line_summary = ''crash on resume'', cr_reasoning = ''AI: crash / P1'' \<rparr>"

definition sample_cluster :: Cluster where
  "sample_cluster =
     new_cluster ''c1'' sample_classification (sample_feedback ''f1'' ''app crashes on resume'')
       [1, 0]"

text \<open>
  A cluster whose fix was deployed at time 1000 with a rollout of 7 days, with the
  given numbers of reports before and after the fix.
\<close>

definition sample_fixed_cluster :: "nat \<Rightarrow> int option \<Rightarrow> int option \<Rightarrow> Cluster" where
  "sample_fixed_cluster n before after =
     sample_cluster
       \<lparr> count := n, fix_status := Some FixDeployed, fix_deployed_date := Some 1000,
         rollout_period_days := Some 7, original_severity := Some ''P0'',
         current_severity := Some ''P2'', reports_before_fix := before,
         reports_after_fix := after \<rparr>"

text \<open>
  A cluster of one member that is marked resolved, a user-specific cluster of one
  member, and a cluster of two members about a crash.
\<close>

definition sample_resolved_single :: Cluster where
  "sample_resolved_single =
     sample_cluster \<lparr> representative_feedback := ''cannot export report'',
                      fix_status := Some Resolved \<rparr>"

definition sample_user_cluster :: Cluster where
  "sample_user_cluster =
     sample_cluster \<lparr> cluster_id := ''c0'', representative_feedback := ''my account is locked'' \<rparr>"

definition sample_crash_cluster :: Cluster where
  "sample_crash_cluster = sample_cluster \<lparr> count := 2 \<rparr>"

text \<open>
  Collaborators that always answer the same, a stored row with a centroid that does not
  parse, and a stored row with a usable centroid.
\<close>

definition sample_env :: Env where
  "sample_env =
     \<lparr> classifyFeedback = (\<lambda>n txt. sample_classification),
       generateEmbedding = (\<lambda>n txt. [1, 0]),
       randomUUID = (\<lambda>n. ''uuid-'' @ replicate n (CHR ''x'')),
       parse_centroid = (\<lambda>s. if s = ''[1,0]'' then Arr [1, 0]
                               else if s = ''[]'' then Arr []
                               else if s = ''null'' then NotArray
                               else ParseError),
       parse_sources = (\<lambda>s. if s = ''[]'' then Some [] else None),
       summarizeCluster = (\<lambda>c. ([], [], [])) \<rparr>"

definition sample_row :: "string \<Rightarrow> string option \<Rightarrow> ClusterRow" where
  "sample_row cid cen =
     \<lparr> r_cluster_id = cid, r_category = ''crash'', r_severity = ''P1'', r_centroid = cen,
       r_count = 2, r_first_seen = 1000, r_last_seen = 2000,
       r_representative_feedback_id = ''f0'',
       r_representative_feedback = ''app crashes on resume'',
       r_summary = None, r_suggested_action = None, r_user_impact = None,
       r_priority_score = None, r_sentiment_score = None, r_top_sources = None,
       r_fix_status = None, r_fix_deployed_date = None, r_fix_deployed_version = None,
       r_rollout_period_days = None, r_original_severity = None,
       r_current_severity = None, r_reports_before_fix = None,
       r_reports_after_fix = None, r_fix_notes = None \<rparr>"

section \<open>Facts about the rounding of doubles\<close>

lemma round_even_error: "\<bar>of_int (round_even q) - q\<bar> \<le> 1 / 2"
  unfolding round_even_def Let_def by (auto simp: abs_le_iff)

lemma round_even_int: "round_even (of_int k) = k"
  by (simp add: round_even_def)


lemma floor_log2_eq:
  assumes "0 < x" "2 powr of_int e \<le> x" "x < 2 powr of_int (e + 1)"
  shows "\<lfloor>log 2 x\<rfloor> = e"
proof (rule floor_unique)
  show "of_int e \<le> log 2 x" using assms by (simp add: le_log_iff)
  have "log 2 x < of_int (e + 1)" using assms by (simp add: log_less_iff)
  then show "log 2 x < of_int e + 1" by simp
qed

lemma ulp_exp_scaled:
  assumes "2 ^ 52 \<le> \<bar>x\<bar> * 2 ^ n" "\<bar>x\<bar> * 2 ^ n < 2 ^ 53" "n \<le> 1074"
  shows "ulp_exp x = - int n"
proof -
  have pos: "0 < \<bar>x\<bar>" using assms(1) by (cases "x = 0") auto
  have c: "real_of_int (52 - int n) = 52 - real n" "real_of_int (52 - int n + 1) = 53 - real n"
    by simp_all
  have p: "(2::real) powr of_int (52 - int n) = 2 ^ 52 / 2 ^ n"
    by (simp only: c powr_diff) (simp add: powr_realpow)
  have q: "(2::real) powr of_int (52 - int n + 1) = 2 ^ 53 / 2 ^ n"
    by (simp only: c powr_diff) (simp add: powr_realpow)
  have a: "2 powr of_int (52 - int n) \<le> \<bar>x\<bar>"
  proof -
    have "2 ^ 52 / 2 ^ n \<le> \<bar>x\<bar>" using assms(1) by (simp add: field_simps)
    then show ?thesis by (simp only: p)
  qed
  have b: "\<bar>x\<bar> < 2 powr of_int (52 - int n + 1)"
  proof -
    have "\<bar>x\<bar> < 2 ^ 53 / 2 ^ n" using assms(2) by (simp add: field_simps)
    then show ?thesis by (simp only: q)
  qed
  have "\<lfloor>log 2 \<bar>x\<bar>\<rfloor> = 52 - int n" by (rule floor_log2_eq [OF pos a b])
  with assms(3) show ?thesis by (simp add: ulp_exp_def)
qed

lemma fl_scaled:
  assumes "2 ^ 52 \<le> \<bar>x\<bar> * 2 ^ n" "\<bar>x\<bar> * 2 ^ n < 2 ^ 53" "n \<le> 1074"
  shows "fl x = Num (of_int (round_even (x * 2 ^ n)) / 2 ^ n)"
proof -
  have nz: "x \<noteq> 0" using assms(1) by (cases "x = 0") auto
  have u: "(2::real) powr of_int (ulp_exp x) = 1 / 2 ^ n"
    using ulp_exp_scaled [OF assms] by (simp add: powr_minus powr_realpow inverse_eq_divide)
  let ?k = "round_even (x * 2 ^ n)"
  have e: "\<bar>of_int ?k - x * 2 ^ n\<bar> \<le> 1 / 2" by (rule round_even_error)
  have "\<bar>x * 2 ^ n\<bar> = \<bar>x\<bar> * 2 ^ n" by (simp add: abs_mult)
  with e have "\<bar>real_of_int ?k\<bar> \<le> \<bar>x\<bar> * 2 ^ n + 1 / 2" by linarith
  then have k: "\<bar>real_of_int ?k\<bar> < 2 ^ 53 + 1" using assms(2) by linarith
  have one: "(1::real) \<le> 2 ^ n" by simp
  have "\<bar>real_of_int ?k / 2 ^ n\<bar> = \<bar>real_of_int ?k\<bar> / 2 ^ n" by simp
  also have "\<dots> \<le> \<bar>real_of_int ?k\<bar> / 1"
    by (rule divide_left_mono) (use one in simp_all)
  finally have "\<bar>real_of_int ?k / 2 ^ n\<bar> \<le> \<bar>real_of_int ?k\<bar>" by simp
  moreover have "(2::real) ^ 53 + 1 < 2 ^ 1024" by simp
  ultimately have small: "\<bar>real_of_int ?k / 2 ^ n\<bar> < 2 ^ 1024" using k by linarith
  then have "\<not> 2 ^ 1024 \<le> real_of_int ?k / 2 ^ n" "\<not> real_of_int ?k / 2 ^ n \<le> - (2 ^ 1024)"
    by linarith+
  then show ?thesis using nz by (simp add: fl_def u Let_def)
qed




lemma fl_rel:
  assumes "1 / 2 ^ 1022 \<le> \<bar>x\<bar>" "\<bar>x\<bar> \<le> 2 ^ 1023"
  shows "\<exists>y. fl x = Num y \<and> \<bar>y - x\<bar> \<le> \<bar>x\<bar> / 2 ^ 53"
proof -
  have pos: "0 < \<bar>x\<bar>" using assms(1) by (smt (verit) divide_pos_pos zero_less_power)
  then have nz: "x \<noteq> 0" by simp
  let ?e = "\<lfloor>log 2 \<bar>x\<bar>\<rfloor>"
  have "(1::real) / 2 ^ 1022 = 2 powr (- 1022)" by (simp add: powr_minus inverse_eq_divide)
  with assms(1) have "2 powr (- 1022) \<le> \<bar>x\<bar>" by simp
  then have "- 1022 \<le> log 2 \<bar>x\<bar>" using pos by (simp add: le_log_iff)
  then have "- 1022 \<le> ?e" by linarith
  then have ue: "ulp_exp x = ?e - 52" by (simp add: ulp_exp_def)
  let ?u = "(2::real) powr of_int (?e - 52)"
  let ?k = "round_even (x / ?u)"
  let ?y = "of_int ?k * ?u"
  have upos: "0 < ?u" by simp
  have ple: "2 powr of_int ?e \<le> \<bar>x\<bar>"
  proof -
    have "2 powr of_int ?e \<le> 2 powr (log 2 \<bar>x\<bar>)"
      by (rule powr_mono) (rule of_int_floor_le, simp)
    then show ?thesis using pos by simp
  qed
  have split: "2 powr of_int ?e = 2 ^ 52 * ?u"
  proof -
    have "real_of_int ?e = 52 + real_of_int (?e - 52)" by simp
    then have "(2::real) powr of_int ?e = 2 powr 52 * ?u" by (simp only: powr_add)
    then show ?thesis by simp
  qed
  have ubound: "?u / 2 \<le> \<bar>x\<bar> / 2 ^ 53"
  proof -
    have "2 ^ 52 * ?u \<le> \<bar>x\<bar>" using ple split by simp
    then show ?thesis by (simp add: field_simps)
  qed
  have "\<bar>?y - x\<bar> = \<bar>of_int ?k - x / ?u\<bar> * ?u"
  proof -
    have "?y - x = (of_int ?k - x / ?u) * ?u" using upos by (simp add: field_simps)
    then show ?thesis using upos by (simp add: abs_mult)
  qed
  also have "\<dots> \<le> 1 / 2 * ?u"
    using round_even_error [of "x / ?u"] upos by (intro mult_right_mono) simp_all
  finally have err: "\<bar>?y - x\<bar> \<le> \<bar>x\<bar> / 2 ^ 53" using ubound by simp
  have "\<bar>?y\<bar> \<le> \<bar>x\<bar> + \<bar>x\<bar> / 2 ^ 53" using err by linarith
  also have "\<dots> \<le> 2 ^ 1023 + 2 ^ 1023 / 2 ^ 53"
    using assms(2) by (intro add_mono divide_right_mono) simp_all
  also have "\<dots> < 2 ^ 1024" by simp
  finally have "\<not> 2 ^ 1024 \<le> ?y" "\<not> ?y \<le> - (2 ^ 1024)" by linarith+
  then have "fl x = Num ?y" using nz by (simp add: fl_def ue Let_def)
  with err show ?thesis by blast
qed


lemma fl_rel_pos:
  assumes "1 / 2 ^ 1022 \<le> x" "x \<le> 2 ^ 1023"
  shows "\<exists>y. fl x = Num y \<and> (1 - 1 / 2 ^ 53) * x \<le> y \<and> y \<le> (1 + 1 / 2 ^ 53) * x"
proof -
  have "0 < x" using assms(1) by (smt (verit) divide_pos_pos zero_less_power)
  then have ax: "\<bar>x\<bar> = x" by simp
  obtain y where y: "fl x = Num y" "\<bar>y - x\<bar> \<le> \<bar>x\<bar> / 2 ^ 53"
    using fl_rel [of x] assms ax by auto
  from y(2) have "\<bar>y - x\<bar> \<le> x / 2 ^ 53" by (simp only: ax)
  then have b: "x - x / 2 ^ 53 \<le> y" "y \<le> x + x / 2 ^ 53" by linarith+
  have e1: "(1 - 1 / 2 ^ 53) * x = x - x / 2 ^ 53" by (simp add: algebra_simps)
  have e2: "(1 + 1 / 2 ^ 53) * x = x + x / 2 ^ 53" by (simp add: algebra_simps)
  show ?thesis
  proof (intro exI conjI)
    show "fl x = Num y" by fact
    show "(1 - 1 / 2 ^ 53) * x \<le> y" by (simp only: e1) (rule b)
    show "y \<le> (1 + 1 / 2 ^ 53) * x" by (simp only: e2) (rule b)
  qed
qed




lemma sqrt_range:
  assumes "1 / 2 ^ 1000 \<le> s" "s \<le> 2 ^ 1000"
  shows "1 / 2 ^ 500 \<le> sqrt s" "sqrt s \<le> 2 ^ 500"
proof -
  have "(1 / 2 ^ 500 :: real)\<^sup>2 = 1 / 2 ^ 1000" by (simp add: power_divide)
  then have "(1 / 2 ^ 500 :: real)\<^sup>2 \<le> s" using assms(1) by simp
  then show "1 / 2 ^ 500 \<le> sqrt s" by (rule real_le_rsqrt)
  have "((2::real) ^ 500)\<^sup>2 = 2 ^ 1000" by simp
  then have "s \<le> ((2::real) ^ 500)\<^sup>2" using assms(2) by simp
  then show "sqrt s \<le> 2 ^ 500" by (intro real_le_lsqrt) simp_all
qed


lemma tiny_le: "(1 / 2 ^ 1022 :: real) \<le> 1 / 2 ^ 500" "(2 ^ 500 :: real) \<le> 2 ^ 1023"
  "(1 / 2 ^ 1022 :: real) \<le> 1 / 4 * (1 / 2 ^ 1000)" "(4 * 2 ^ 1000 :: real) \<le> 2 ^ 1023"
  "(1 / 2 ^ 1022 :: real) \<le> 1 / 8" "(8 :: real) \<le> 2 ^ 1023"
  by simp_all

lemma sqrt_rounded:
  assumes "1 / 2 ^ 1000 \<le> s" "s \<le> 2 ^ 1000"
  shows "\<exists>r. js_sqrt (Num s) = Num r \<and> (1 - 1 / 2 ^ 53) * sqrt s \<le> r
             \<and> r \<le> (1 + 1 / 2 ^ 53) * sqrt s"
proof -
  have spos: "0 < s" using assms(1) by (rule less_le_trans [rotated]) simp
  have a: "1 / 2 ^ 1022 \<le> sqrt s"
    using tiny_le(1) sqrt_range(1) [OF assms] by (rule order_trans)
  have b: "sqrt s \<le> 2 ^ 1023"
    using sqrt_range(2) [OF assms] tiny_le(2) by (rule order_trans)
  from fl_rel_pos [OF a b] spos show ?thesis by auto
qed


lemma rel_facts: "0 < rel_lo" "1 / 2 \<le> rel_lo" "0 < rel_hi" "rel_hi \<le> 2"
  by (simp_all add: rel_lo_def rel_hi_def)

lemma fl_rel_bounds:
  assumes "1 / 2 ^ 1022 \<le> x" "x \<le> 2 ^ 1023"
  shows "\<exists>y. fl x = Num y \<and> rel_lo * x \<le> y \<and> y \<le> rel_hi * x"
  using fl_rel_pos [OF assms] by (simp add: rel_lo_def rel_hi_def)






lemma fl_zero: "fl 0 = Num 0"
  by (simp add: fl_def)

lemma fl_small_ints:
  "fl 1 = Num 1" "fl 9 = Num 9" "fl 12 = Num 12" "fl (- 12) = Num (- 12)"
  "fl 16 = Num 16" "fl 25 = Num 25" "fl 5 = Num 5" "fl 7 = Num 7" "fl 2 = Num 2" "fl 50 = Num 50"
  using fl_scaled [of 1 52] fl_scaled [of 9 49] fl_scaled [of 12 49] fl_scaled [of "- 12" 49]
    fl_scaled [of 16 48] fl_scaled [of 25 48] fl_scaled [of 5 50] fl_scaled [of 7 50]
    fl_scaled [of 2 51] fl_scaled [of 50 47]
  by (simp_all add: round_even_def)

lemma fl_consts:
  "fl (1 / 7) = Num (5146971002709138 / 2 ^ 55)"
  "fl (5 / 7) = Num (6433713753386423 / 2 ^ 53)"
  "fl (1 / 5) = Num (7205759403792794 / 2 ^ 55)"
  "fl (6433713753386423 / 2 ^ 53 * (7205759403792794 / 2 ^ 55)) = Num (5146971002709139 / 2 ^ 55)"
  "fl (2 / 7) = Num (5146971002709138 / 2 ^ 54)"
  "fl (50 / 7) = Num (8042142191733029 / 2 ^ 50)"
  "fl (8042142191733029 / 2 ^ 50 * (7205759403792794 / 2 ^ 55)) = Num (6433713753386424 / 2 ^ 52)"
  using fl_scaled [of "1 / 7" 55] fl_scaled [of "5 / 7" 53] fl_scaled [of "1 / 5" 55]
    fl_scaled [of "6433713753386423 / 2 ^ 53 * (7205759403792794 / 2 ^ 55)" 55]
    fl_scaled [of "2 / 7" 54] fl_scaled [of "50 / 7" 50]
    fl_scaled [of "8042142191733029 / 2 ^ 50 * (7205759403792794 / 2 ^ 55)" 52]
  by (simp_all add: round_even_def Let_def)




lemma fl_boundary:
  "fl (5 * (7205759403792794 / 2 ^ 55)) = Num 1" "fl 35 = Num 35" "fl (35 / 7) = Num 5"
  using fl_scaled [of "5 * (7205759403792794 / 2 ^ 55)" 52] fl_scaled [of 35 47]
    fl_scaled [of 5 50]
  by (simp_all add: round_even_def Let_def)

lemma fl_of_int:
  assumes "0 < n" "n < 2 ^ 53"
  shows "fl (of_int n) = Num (of_int n)"
proof -
  let ?x = "real_of_int n"
  have pos: "0 < ?x" using assms(1) by simp
  have ge1: "1 \<le> ?x" using assms(1) by simp
  have lt: "?x < 2 ^ 53" using assms(2) by (metis of_int_less_iff of_int_numeral of_int_power)
  define e where "e = \<lfloor>log 2 ?x\<rfloor>"
  have "0 \<le> log 2 ?x" using ge1 by simp
  then have e0: "0 \<le> e" by (simp add: e_def)
  have "(2::real) ^ 53 = 2 powr 53" by simp
  with lt have "?x < 2 powr 53" by simp
  then have "log 2 ?x < 53" using pos by (simp add: log_less_iff)
  then have e52: "e \<le> 52" unfolding e_def by linarith
  define m where "m = nat (52 - e)"
  have me: "int m = 52 - e" using e52 by (simp add: m_def)
  have ax: "\<bar>?x\<bar> = ?x" using pos by simp
  have "ulp_exp ?x = e - 52" using e0 by (simp only: ulp_exp_def ax e_def [symmetric])
  then have ue: "ulp_exp ?x = - int m" using me by simp
  have u: "(2::real) powr of_int (ulp_exp ?x) = 1 / 2 ^ m"
    by (simp add: ue powr_minus powr_realpow inverse_eq_divide)
  have q: "?x / (1 / 2 ^ m) = of_int (n * 2 ^ m)" by simp
  have r: "round_even (?x / (1 / 2 ^ m)) = n * 2 ^ m" by (simp only: q round_even_int)
  have y: "real_of_int (n * 2 ^ m) * (1 / 2 ^ m) = ?x" by simp
  have "(2::real) ^ 53 < 2 ^ 1024" by simp
  with lt have "?x < 2 ^ 1024" by (rule less_trans)
  then have small: "\<not> 2 ^ 1024 \<le> ?x" by simp
  have "- (2 ^ 1024) < (0::real)" by simp
  then have "- (2 ^ 1024) < ?x" using pos by (rule less_trans)
  then have small': "\<not> ?x \<le> - (2 ^ 1024)" by simp
  have nz: "?x \<noteq> 0" using pos by simp
  have "fl ?x = (let y = of_int (round_even (?x / (1 / 2 ^ m))) * (1 / 2 ^ m)
      in if 2 ^ 1024 \<le> y then PosInf else if y \<le> - (2 ^ 1024) then NegInf else Num y)"
    using nz by (simp only: fl_def u Let_def if_False)
  also have "\<dots> = Num ?x"
    using small small' by (simp only: r y Let_def if_False)
  finally show ?thesis .
qed

lemma js_of_int_exact:
  assumes "0 \<le> n" "n < 2 ^ 53"
  shows "js_of_int n = Num (of_int n)"
proof (cases "n = 0")
  case True
  then show ?thesis by (simp add: js_of_int_def fl_zero)
next
  case False
  with assms(1) have "0 < n" by simp
  then show ?thesis unfolding js_of_int_def using assms(2) by (rule fl_of_int)
qed

lemma rel_gap:
  "0 \<le> rel_hi - rel_lo ^ 3" "(rel_hi - rel_lo ^ 3) * 2 ^ 50 < rel_hi"
  "0 \<le> rel_hi ^ 3 - rel_lo" "(rel_hi ^ 3 - rel_lo) * 2 ^ 50 \<le> rel_lo"
  by (simp_all add: rel_lo_def rel_hi_def power3_eq_cube)

lemma margin_lt:
  fixes X Y :: real
  assumes "Y + 1 \<le> X" "X \<le> 2 ^ 50"
  shows "rel_hi * Y < rel_lo ^ 3 * X"
proof -
  define k where "k = rel_hi - rel_lo ^ 3"
  have k: "0 \<le> k" "k * 2 ^ 50 < rel_hi" using rel_gap(1,2) by (simp_all add: k_def)
  have 1: "rel_hi * Y \<le> rel_hi * (X - 1)"
    using assms(1) rel_facts(3) by (intro mult_left_mono) simp_all
  have 2: "k * X \<le> k * 2 ^ 50" using assms(2) k(1) by (rule mult_left_mono)
  have 3: "rel_lo ^ 3 * X = rel_hi * X - k * X" by (simp add: k_def algebra_simps)
  have 4: "rel_hi * (X - 1) = rel_hi * X - rel_hi" by (simp add: algebra_simps)
  from 1 2 3 4 k(2) show ?thesis by linarith
qed

lemma margin_ge:
  fixes X Y :: real
  assumes "X + 1 \<le> Y" "0 \<le> X" "X \<le> 2 ^ 50"
  shows "rel_hi ^ 3 * X \<le> rel_lo * Y"
proof -
  define k where "k = rel_hi ^ 3 - rel_lo"
  have k: "0 \<le> k" "k * 2 ^ 50 \<le> rel_lo" using rel_gap(3,4) by (simp_all add: k_def)
  have 1: "rel_lo * (X + 1) \<le> rel_lo * Y"
    using assms(1) rel_facts(1) by (intro mult_left_mono) simp_all
  have 2: "k * X \<le> k * 2 ^ 50" using assms(3) k(1) by (rule mult_left_mono)
  have 3: "rel_hi ^ 3 * X = rel_lo * X + k * X" by (simp add: k_def algebra_simps)
  have 4: "rel_lo * (X + 1) = rel_lo * X + rel_lo" by (simp add: algebra_simps)
  from 1 2 3 4 k(2) show ?thesis by linarith
qed

lemma fifth_bounds:
  "rel_lo * (1 / 5) \<le> 7205759403792794 / 2 ^ 55"
  "7205759403792794 / 2 ^ 55 \<le> rel_hi * (1 / 5)"
  "(1::real) / 8 \<le> 7205759403792794 / 2 ^ 55" "(7205759403792794::real) / 2 ^ 55 \<le> 1"
  by (simp_all add: rel_lo_def rel_hi_def)

lemma fl_fifth: "fl 0.2 = Num (7205759403792794 / 2 ^ 55)"
  using fl_consts(3) by simp


lemma range_facts:
  "(1 / 2 ^ 1022 :: real) \<le> 1 / 112" "(2 ^ 51 :: real) \<le> 2 ^ 1023"
  "(1 / 2 ^ 1022 :: real) \<le> 1 / 2 ^ 50" "(2 ^ 53 :: real) \<le> 2 ^ 1023"
  "(1 / 2 ^ 1022 :: real) \<le> 1 / 7" "(2 ^ 50 :: real) \<le> 2 ^ 1023"
  by simp_all

section \<open>Facts about the cosine similarity\<close>




















section \<open>Facts about the running mean\<close>

lemma length_spec_mean: "length (spec_mean d es) = d"
  by (simp add: spec_mean_def)

lemma add_to_cluster_count: "count (add_to_cluster fb e c) = count c + 1"
  by (simp add: add_to_cluster_def Let_def)

lemma add_to_cluster_mean:
  assumes cen: "centroid c = spec_mean d xs"
    and cnt: "count c = length xs"
    and ne: "xs \<noteq> []"
    and len: "length e = d"
  shows "centroid (add_to_cluster fb e c) = spec_mean d (xs @ [e])"
proof -
  have n: "real (length xs) \<noteq> 0" using ne by simp
  have step: "(spec_mean d xs ! i * (real (length xs + 1) - 1) + e ! i) / real (length xs + 1)
      = ((\<Sum>x\<leftarrow>xs @ [e]. x ! i)) / real (length (xs @ [e]))" if "i < d" for i
  proof -
    have "spec_mean d xs ! i = (\<Sum>x\<leftarrow>xs. x ! i) / real (length xs)"
      using that by (simp add: spec_mean_def)
    then have "spec_mean d xs ! i * real (length xs) = (\<Sum>x\<leftarrow>xs. x ! i)"
      using n by simp
    then show ?thesis by simp
  qed
  have "centroid (add_to_cluster fb e c)
      = map (\<lambda>i. (spec_mean d xs ! i * (real (length xs + 1) - 1) + e ! i) / real (length xs + 1))
            [0..<d]"
    using cen cnt len by (simp add: add_to_cluster_def Let_def length_spec_mean)
  also have "\<dots> = map (\<lambda>i. (\<Sum>x\<leftarrow>xs @ [e]. x ! i) / real (length (xs @ [e]))) [0..<d]"
    by (rule map_cong [OF refl]) (use step in auto)
  finally show ?thesis by (simp add: spec_mean_def)
qed

lemma merge_all_mean:
  assumes "centroid c = spec_mean d xs" "count c = length xs" "xs \<noteq> []"
    and "\<forall>e\<in>set (map snd items). length e = d"
  shows "centroid (merge_all c items) = spec_mean d (xs @ map snd items)
       \<and> count (merge_all c items) = length xs + length items"
  using assms
proof (induction items arbitrary: c xs)
  case Nil
  then show ?case by (simp add: merge_all_def)
next
  case (Cons item items)
  let ?c = "add_to_cluster (fst item) (snd item) c"
  have len: "length (snd item) = d" using Cons.prems(4) by simp
  have cen: "centroid ?c = spec_mean d (xs @ [snd item])"
    using add_to_cluster_mean [OF Cons.prems(1) Cons.prems(2) Cons.prems(3) len] .
  have cnt: "count ?c = length (xs @ [snd item])"
    using Cons.prems(2) by (simp add: add_to_cluster_count)
  have rest: "\<forall>e\<in>set (map snd items). length e = d" using Cons.prems(4) by simp
  have "centroid (merge_all ?c items) = spec_mean d ((xs @ [snd item]) @ map snd items)
      \<and> count (merge_all ?c items) = length (xs @ [snd item]) + length items"
    using Cons.IH [OF cen cnt _ rest] by simp
  then show ?case by (simp add: merge_all_def)
qed

lemma new_cluster_mean:
  assumes "length e0 = d"
  shows "centroid (new_cluster cid cl fb0 e0) = spec_mean d [e0]"
proof -
  have "map (\<lambda>i. e0 ! i) [0..<length e0] = e0" by (rule map_nth)
  then show ?thesis using assms by (simp add: new_cluster_def spec_mean_def)
qed

lemma built_cluster_mean:
  assumes "\<forall>e\<in>set (e0 # map snd items). length e = d"
  shows "centroid (merge_all (new_cluster cid cl fb0 e0) items) = spec_mean d (e0 # map snd items)
       \<and> count (merge_all (new_cluster cid cl fb0 e0) items) = length items + 1"
proof -
  have e0: "length e0 = d" and rest: "\<forall>e\<in>set (map snd items). length e = d"
    using assms by simp_all
  have cnt: "count (new_cluster cid cl fb0 e0) = length [e0]"
    by (simp add: new_cluster_def)
  show ?thesis
    using merge_all_mean [OF new_cluster_mean [OF e0] cnt _ rest] by simp
qed

lemma spec_mean_mset:
  assumes "mset xs = mset ys"
  shows "spec_mean d xs = spec_mean d ys"
proof -
  have len: "length xs = length ys" using assms by (rule mset_eq_length)
  have "(\<Sum>e\<leftarrow>xs. e ! i) = (\<Sum>e\<leftarrow>ys. e ! i)" for i
  proof -
    have "mset (map (\<lambda>e. e ! i) xs) = mset (map (\<lambda>e. e ! i) ys)"
      using assms by (metis mset_map)
    then show ?thesis by (metis sum_mset_sum_list)
  qed
  with len show ?thesis by (simp add: spec_mean_def)
qed

text \<open>
  Claim C2. A cluster created from a first embedding (count 1, centroid the embedding
  itself) into which further embeddings of the same dimension \<open>d\<close> are merged one at a
  time by the incremental-mean update has, at the end, the arithmetic mean of all its
  embeddings as centroid and their number as count; and any other cluster built in the
  same way from the same embeddings taken in another order has the same centroid.
  Arithmetic is exact.
\<close>

theorem C2_running_mean:
  assumes "\<forall>e\<in>set (e0 # map snd items). length e = d"
  shows "centroid (merge_all (new_cluster cid cl fb0 e0) items) = spec_mean d (e0 # map snd items)
       \<and> count (merge_all (new_cluster cid cl fb0 e0) items) = length items + 1
       \<and> (\<forall>cid' cl' fb0' e0' items'.
             mset (e0' # map snd items') = mset (e0 # map snd items)
             \<longrightarrow> centroid (merge_all (new_cluster cid' cl' fb0' e0') items')
                 = centroid (merge_all (new_cluster cid cl fb0 e0) items))"
proof -
  have here: "centroid (merge_all (new_cluster cid cl fb0 e0) items) = spec_mean d (e0 # map snd items)"
    and cnt: "count (merge_all (new_cluster cid cl fb0 e0) items) = length items + 1"
    using built_cluster_mean [OF assms] by simp_all
  have "centroid (merge_all (new_cluster cid' cl' fb0' e0') items')
      = centroid (merge_all (new_cluster cid cl fb0 e0) items)"
    if perm: "mset (e0' # map snd items') = mset (e0 # map snd items)"
    for cid' cl' fb0' e0' items'
  proof -
    have "set (e0' # map snd items') = set (e0 # map snd items)"
      using perm by (rule mset_eq_setD)
    then have dims: "\<forall>e\<in>set (e0' # map snd items'). length e = d"
      using assms by simp
    have "centroid (merge_all (new_cluster cid' cl' fb0' e0') items')
        = spec_mean d (e0' # map snd items')"
      using built_cluster_mean [OF dims] by simp
    also have "\<dots> = spec_mean d (e0 # map snd items)"
      using perm by (rule spec_mean_mset)
    finally show ?thesis using here by simp
  qed
  with here cnt show ?thesis by blast
qed

theorem C2_running_mean_witness:
  "length [1, 2 :: real] = 2 \<and> length [3, 4 :: real] = 2
   \<and> centroid (merge_all (new_cluster ''c1'' sample_classification
                  (sample_feedback ''f1'' ''app crashes on resume'') [1, 2])
                [(sample_feedback ''f2'' ''app crashes on resume again'', [3, 4])]) = [2, 3]
   \<and> count (merge_all (new_cluster ''c1'' sample_classification
                  (sample_feedback ''f1'' ''app crashes on resume'') [1, 2])
                [(sample_feedback ''f2'' ''app crashes on resume again'', [3, 4])]) = 2
   \<and> centroid (merge_all (new_cluster ''c2'' sample_classification
                  (sample_feedback ''f2'' ''app crashes on resume again'') [3, 4])
                [(sample_feedback ''f1'' ''app crashes on resume'', [1, 2])]) = [2, 3]"
proof -
  let ?f1 = "sample_feedback ''f1'' ''app crashes on resume''"
  let ?f2 = "sample_feedback ''f2'' ''app crashes on resume again''"
  have dims: "\<forall>e\<in>set ([1, 2] # map snd [(?f2, [3, 4 :: real])]). length e = 2"
    by simp
  note main = C2_running_mean [OF dims, of "''c1''" sample_classification ?f1]
  have m: "spec_mean 2 ([1, 2] # map snd [(?f2, [3, 4])]) = [2, 3]"
  proof -
    have u: "[0..<2] = [0, Suc 0]" by (simp add: eval_nat_numeral upt_conv_Cons)
    show ?thesis by (simp add: spec_mean_def u)
  qed
  have perm: "mset ([3, 4] # map snd [(?f1, [1, 2 :: real])])
      = mset ([1, 2] # map snd [(?f2, [3, 4])])"
    by simp
  have other: "centroid (merge_all (new_cluster ''c2'' sample_classification ?f2 [3, 4])
                  [(?f1, [1, 2])])
      = centroid (merge_all (new_cluster ''c1'' sample_classification ?f1 [1, 2])
                  [(?f2, [3, 4])])"
    using main perm by blast
  show ?thesis using main m other by simp
qed

section \<open>Facts about the priority score\<close>

lemma severityScore_severity_chain:
  "severityScore (c\<lparr>severity := ''P1''\<rparr>) \<le> severityScore (c\<lparr>severity := ''P0''\<rparr>)"
  "severityScore (c\<lparr>severity := ''P2''\<rparr>) \<le> severityScore (c\<lparr>severity := ''P1''\<rparr>)"
  "severityScore (c\<lparr>severity := ''P3''\<rparr>) \<le> severityScore (c\<lparr>severity := ''P2''\<rparr>)"
  by (auto simp: severityScore_def effectiveSeverity_def or_str_def or_real_def severityMap_def
      truthy_str_def split: option.splits)

lemma severityScore_current_chain:
  "severityScore (c\<lparr>current_severity := Some ''P1''\<rparr>)
     \<le> severityScore (c\<lparr>current_severity := Some ''P0''\<rparr>)"
  "severityScore (c\<lparr>current_severity := Some ''P2''\<rparr>)
     \<le> severityScore (c\<lparr>current_severity := Some ''P1''\<rparr>)"
  "severityScore (c\<lparr>current_severity := Some ''P3''\<rparr>)
     \<le> severityScore (c\<lparr>current_severity := Some ''P2''\<rparr>)"
  by (auto simp: severityScore_def effectiveSeverity_def or_str_def or_real_def severityMap_def
      truthy_str_def split: option.splits)

lemma severityScore_original_chain:
  "severityScore (c\<lparr>original_severity := Some ''P1''\<rparr>)
     \<le> severityScore (c\<lparr>original_severity := Some ''P0''\<rparr>)"
  "severityScore (c\<lparr>original_severity := Some ''P2''\<rparr>)
     \<le> severityScore (c\<lparr>original_severity := Some ''P1''\<rparr>)"
  "severityScore (c\<lparr>original_severity := Some ''P3''\<rparr>)
     \<le> severityScore (c\<lparr>original_severity := Some ''P2''\<rparr>)"
  by (auto simp: severityScore_def effectiveSeverity_def or_str_def or_real_def severityMap_def
      truthy_str_def split: option.splits)

lemma frequencyScore_mono:
  assumes "n \<le> m"
  shows "frequencyScore (c\<lparr>count := n\<rparr>) \<le> frequencyScore (c\<lparr>count := m\<rparr>)"
proof -
  have "log 10 (real (n + 1)) \<le> log 10 (real (m + 1))"
    using assms by simp
  then have "log 10 (real (n + 1)) * 50 \<le> log 10 (real (m + 1)) * 50" by simp
  then show ?thesis by (simp add: frequencyScore_def min_le_iff_disj)
qed

lemma score_only_severity:
  assumes "0 \<le> severityWeight cfg" "severityScore c \<le> severityScore c'"
    and "frequencyScore c = frequencyScore c'" "recencyScore now c = recencyScore now c'"
    and "negativityScore c = negativityScore c'"
  shows "calculatePriorityScore cfg now c \<le> calculatePriorityScore cfg now c'"
  using assms by (simp add: calculatePriorityScore_def mult_right_mono)

lemma score_severity_field:
  assumes "0 \<le> severityWeight cfg"
    and "severityScore (c\<lparr>severity := s\<rparr>) \<le> severityScore (c\<lparr>severity := s'\<rparr>)"
  shows "calculatePriorityScore cfg now (c\<lparr>severity := s\<rparr>)
       \<le> calculatePriorityScore cfg now (c\<lparr>severity := s'\<rparr>)"
  using assms
  by (intro score_only_severity) (simp_all add: frequencyScore_def recencyScore_def negativityScore_def)

lemma score_current_field:
  assumes "0 \<le> severityWeight cfg"
    and "severityScore (c\<lparr>current_severity := s\<rparr>) \<le> severityScore (c\<lparr>current_severity := s'\<rparr>)"
  shows "calculatePriorityScore cfg now (c\<lparr>current_severity := s\<rparr>)
       \<le> calculatePriorityScore cfg now (c\<lparr>current_severity := s'\<rparr>)"
  using assms
  by (intro score_only_severity) (simp_all add: frequencyScore_def recencyScore_def negativityScore_def)

lemma score_original_field:
  assumes "0 \<le> severityWeight cfg"
    and "severityScore (c\<lparr>original_severity := s\<rparr>) \<le> severityScore (c\<lparr>original_severity := s'\<rparr>)"
  shows "calculatePriorityScore cfg now (c\<lparr>original_severity := s\<rparr>)
       \<le> calculatePriorityScore cfg now (c\<lparr>original_severity := s'\<rparr>)"
  using assms
  by (intro score_only_severity) (simp_all add: frequencyScore_def recencyScore_def negativityScore_def)

lemma score_count_mono:
  assumes "0 \<le> frequencyWeight cfg" "n \<le> m"
  shows "calculatePriorityScore cfg now (c\<lparr>count := n\<rparr>)
       \<le> calculatePriorityScore cfg now (c\<lparr>count := m\<rparr>)"
proof -
  have f: "frequencyScore (c\<lparr>count := n\<rparr>) * frequencyWeight cfg
      \<le> frequencyScore (c\<lparr>count := m\<rparr>) * frequencyWeight cfg"
    using assms frequencyScore_mono [of n m c] by (simp add: mult_right_mono)
  have s: "severityScore (c\<lparr>count := n\<rparr>) = severityScore (c\<lparr>count := m\<rparr>)"
    by (simp add: severityScore_def effectiveSeverity_def)
  have r: "recencyScore now (c\<lparr>count := n\<rparr>) = recencyScore now (c\<lparr>count := m\<rparr>)"
    by (simp add: recencyScore_def)
  have g: "negativityScore (c\<lparr>count := n\<rparr>) = negativityScore (c\<lparr>count := m\<rparr>)"
    by (simp add: negativityScore_def)
  show ?thesis using f s r g by (simp add: calculatePriorityScore_def)
qed

text \<open>
  Claim C9. With non-negative severity and frequency weights (the default weights are),
  for every cluster and every time: replacing the severity by a higher rank never lowers
  the score (P0 scores at least P1, P1 at least P2, P2 at least P3), whether the rank is
  changed in the severity itself, in the current severity or in the original severity,
  all other attributes equal; and replacing the member count by a larger one never
  lowers the score.
\<close>

theorem C9_priority_monotone:
  assumes "0 \<le> severityWeight cfg" "0 \<le> frequencyWeight cfg"
  shows "calculatePriorityScore cfg now (c\<lparr>severity := ''P1''\<rparr>)
           \<le> calculatePriorityScore cfg now (c\<lparr>severity := ''P0''\<rparr>)
       \<and> calculatePriorityScore cfg now (c\<lparr>severity := ''P2''\<rparr>)
           \<le> calculatePriorityScore cfg now (c\<lparr>severity := ''P1''\<rparr>)
       \<and> calculatePriorityScore cfg now (c\<lparr>severity := ''P3''\<rparr>)
           \<le> calculatePriorityScore cfg now (c\<lparr>severity := ''P2''\<rparr>)
       \<and> calculatePriorityScore cfg now (c\<lparr>current_severity := Some ''P1''\<rparr>)
           \<le> calculatePriorityScore cfg now (c\<lparr>current_severity := Some ''P0''\<rparr>)
       \<and> calculatePriorityScore cfg now (c\<lparr>current_severity := Some ''P2''\<rparr>)
           \<le> calculatePriorityScore cfg now (c\<lparr>current_severity := Some ''P1''\<rparr>)
       \<and> calculatePriorityScore cfg now (c\<lparr>current_severity := Some ''P3''\<rparr>)
           \<le> calculatePriorityScore cfg now (c\<lparr>current_severity := Some ''P2''\<rparr>)
       \<and> calculatePriorityScore cfg now (c\<lparr>original_severity := Some ''P1''\<rparr>)
           \<le> calculatePriorityScore cfg now (c\<lparr>original_severity := Some ''P0''\<rparr>)
       \<and> calculatePriorityScore cfg now (c\<lparr>original_severity := Some ''P2''\<rparr>)
           \<le> calculatePriorityScore cfg now (c\<lparr>original_severity := Some ''P1''\<rparr>)
       \<and> calculatePriorityScore cfg now (c\<lparr>original_severity := Some ''P3''\<rparr>)
           \<le> calculatePriorityScore cfg now (c\<lparr>original_severity := Some ''P2''\<rparr>)
       \<and> (\<forall>n m. n \<le> m \<longrightarrow> calculatePriorityScore cfg now (c\<lparr>count := n\<rparr>)
                             \<le> calculatePriorityScore cfg now (c\<lparr>count := m\<rparr>))"
proof -
  note sev = score_severity_field [OF assms(1)]
  note cur = score_current_field [OF assms(1)]
  note org = score_original_field [OF assms(1)]
  show ?thesis
    by (intro conjI allI impI sev cur org score_count_mono severityScore_severity_chain
        severityScore_current_chain severityScore_original_chain assms(2) | assumption)+
qed

theorem C9_priority_monotone_witness:
  "0 \<le> severityWeight default_config \<and> 0 \<le> frequencyWeight default_config
   \<and> calculatePriorityScore default_config 5000 (sample_cluster\<lparr>severity := ''P1''\<rparr>)
       \<le> calculatePriorityScore default_config 5000 (sample_cluster\<lparr>severity := ''P0''\<rparr>)
   \<and> calculatePriorityScore default_config 5000 (sample_cluster\<lparr>severity := ''P3''\<rparr>)
       \<le> calculatePriorityScore default_config 5000 (sample_cluster\<lparr>severity := ''P2''\<rparr>)
   \<and> (1 :: nat) \<le> 2
   \<and> calculatePriorityScore default_config 5000 (sample_cluster\<lparr>count := 1\<rparr>)
       \<le> calculatePriorityScore default_config 5000 (sample_cluster\<lparr>count := 2\<rparr>)"
proof -
  have w: "0 \<le> severityWeight default_config" "0 \<le> frequencyWeight default_config"
    by (simp_all add: default_config_def)
  show ?thesis
    using w C9_priority_monotone [OF w, of 5000 sample_cluster] by simp
qed

section \<open>Facts about the fix lifecycle\<close>

lemma evaluate_fix_elapsed:
  assumes "fix_status c = Some FixDeployed" "truthy_int (fix_deployed_date c)"
    and "daysSinceFix now (or_int (fix_deployed_date c) 0) > real_of_int (rolloutDays c)"
  shows "evaluate_fix now c =
     (if js_lt (avgAfterFix c) (js_mul (avgBeforeFix c) (fl 0.2))
      then (c \<lparr> fix_status := Some Resolved \<rparr>, [UpdateFixStatus (cluster_id c) Resolved])
      else (c \<lparr> fix_status := Some Failed,
                current_severity := Some (or_str (original_severity c) (severity c)) \<rparr>,
            [UpdateFixFailed (cluster_id c) (or_str (original_severity c) (severity c))]))"
  using assms by (simp add: evaluate_fix_def Let_def)

lemma evaluate_fix_in_window:
  assumes "fix_status c = Some FixDeployed" "truthy_int (fix_deployed_date c)"
    and "daysSinceFix now (or_int (fix_deployed_date c) 0) \<le> real_of_int (rolloutDays c)"
  shows "evaluate_fix now c =
     (c \<lparr> reports_after_fix := Some (or_int (reports_after_fix c) 0 + 1) \<rparr>,
      [UpdateReportsAfter (cluster_id c) (or_int (reports_after_fix c) 0 + 1)])"
  using assms by (simp add: evaluate_fix_def Let_def)

text \<open>
  The comparison of the two averages in doubles against the comparison of the integers
  \<open>35 * a\<close> and \<open>b * r\<close>, to which the specification's formula amounts: the three
  roundings of the right-hand side and the one of the left-hand side cannot turn a
  difference of one unit between the integers while \<open>b * r\<close> is at most \<open>2 ^ 50\<close>.
\<close>

lemma rhs_bounds:
  fixes B :: real
  assumes "1 \<le> B" "B \<le> 2 ^ 50"
  shows "\<exists>q. js_mul (js_div (Num B) (Num 7)) (fl 0.2) = Num q
           \<and> rel_lo ^ 3 * (B / 35) \<le> q \<and> q \<le> rel_hi ^ 3 * (B / 35)"
proof -
  note lo = rel_facts(1,2) and hi = rel_facts(3,4)
  define c :: real where "c = 7205759403792794 / 2 ^ 55"
  have c: "rel_lo * (1 / 5) \<le> c" "c \<le> rel_hi * (1 / 5)" "1 / 8 \<le> c" "c \<le> 1"
    using fifth_bounds by (simp_all add: c_def)
  have cpos: "0 < c" using c(3) by linarith
  have b7: "1 / 7 \<le> B / 7" "B / 7 \<le> 2 ^ 50" using assms by simp_all
  have r1: "1 / 2 ^ 1022 \<le> B / 7" using range_facts(5) b7(1) by (rule order_trans)
  have r2: "B / 7 \<le> 2 ^ 1023" using b7(2) range_facts(6) by (rule order_trans)
  obtain q1 where q1: "fl (B / 7) = Num q1" "rel_lo * (B / 7) \<le> q1" "q1 \<le> rel_hi * (B / 7)"
    using fl_rel_bounds [OF r1 r2] by blast
  have "1 / 2 * (1 / 7) \<le> rel_lo * (B / 7)"
    using lo(2) b7(1) by (intro mult_mono) simp_all
  then have q1lo: "1 / 14 \<le> q1" using q1(2) by linarith
  have "rel_hi * (B / 7) \<le> 2 * 2 ^ 50"
    using hi b7(2) b7(1) by (intro mult_mono) simp_all
  then have q1hi: "q1 \<le> 2 ^ 51" using q1(3) by simp
  have q1pos: "0 < q1" using q1lo by linarith
  have "1 / 14 * (1 / 8) \<le> q1 * c" using q1lo c(3) by (intro mult_mono) simp_all
  then have "1 / 112 \<le> q1 * c" by simp
  with range_facts(1) have r3: "1 / 2 ^ 1022 \<le> q1 * c" by (rule order_trans)
  have "q1 * c \<le> 2 ^ 51 * 1" using q1hi c(4) q1pos cpos by (intro mult_mono) simp_all
  then have "q1 * c \<le> 2 ^ 51" by simp
  then have r4: "q1 * c \<le> 2 ^ 1023" using range_facts(2) by (rule order_trans)
  obtain q where q: "fl (q1 * c) = Num q" "rel_lo * (q1 * c) \<le> q" "q \<le> rel_hi * (q1 * c)"
    using fl_rel_bounds [OF r3 r4] by blast
  have d: "js_div (Num B) (Num 7) = Num q1" by (simp add: q1(1))
  have eq: "js_mul (js_div (Num B) (Num 7)) (fl 0.2) = Num q"
    by (simp only: d fl_fifth js_mul.simps q(1) [unfolded c_def])
  have lower: "rel_lo ^ 3 * (B / 35) \<le> q"
  proof -
    have "(rel_lo * (B / 7)) * (rel_lo * (1 / 5)) \<le> q1 * c"
      using q1(2) c(1) lo(1) assms(1) q1pos by (intro mult_mono) simp_all
    then have "rel_lo * ((rel_lo * (B / 7)) * (rel_lo * (1 / 5))) \<le> rel_lo * (q1 * c)"
      using lo(1) by (intro mult_left_mono) simp_all
    also note q(2)
    finally show ?thesis by (simp add: power3_eq_cube mult_ac)
  qed
  have upper: "q \<le> rel_hi ^ 3 * (B / 35)"
  proof -
    have "q1 * c \<le> (rel_hi * (B / 7)) * (rel_hi * (1 / 5))"
      using q1(3) c(2) q1pos cpos hi(1) assms(1) by (intro mult_mono) simp_all
    then have "rel_hi * (q1 * c) \<le> rel_hi * ((rel_hi * (B / 7)) * (rel_hi * (1 / 5)))"
      using hi(1) by (intro mult_left_mono) simp_all
    with q(3) have "q \<le> rel_hi * ((rel_hi * (B / 7)) * (rel_hi * (1 / 5)))" by (rule order_trans)
    then show ?thesis by (simp add: power3_eq_cube mult_ac)
  qed
  from eq lower upper show ?thesis by blast
qed

lemma lhs_bounds:
  fixes A R :: real
  assumes "1 \<le> A" "A \<le> 2 ^ 53" "1 \<le> R" "R \<le> 2 ^ 50"
  shows "\<exists>p. js_div (Num A) (Num R) = Num p \<and> rel_lo * (A / R) \<le> p \<and> p \<le> rel_hi * (A / R)"
proof -
  have Rpos: "0 < R" using assms(3) by linarith
  have "1 / 2 ^ 50 \<le> 1 / R" using assms(4) Rpos by (intro divide_left_mono) simp_all
  also have "1 / R \<le> A / R" using assms(1) Rpos by (intro divide_right_mono) simp_all
  finally have "1 / 2 ^ 50 \<le> A / R" .
  with range_facts(3) have r1: "1 / 2 ^ 1022 \<le> A / R" by (rule order_trans)
  have "A / R \<le> A / 1" using assms(1,3) by (intro divide_left_mono) simp_all
  then have "A / R \<le> 2 ^ 53" using assms(2) by simp
  then have r2: "A / R \<le> 2 ^ 1023" using range_facts(4) by (rule order_trans)
  obtain p where p: "fl (A / R) = Num p" "rel_lo * (A / R) \<le> p" "p \<le> rel_hi * (A / R)"
    using fl_rel_bounds [OF r1 r2] by blast
  have "js_div (Num A) (Num R) = Num p" using Rpos p(1) by simp
  with p(2,3) show ?thesis by blast
qed

lemma compare_lt:
  fixes A B R :: real
  assumes "A = 0 \<or> 1 \<le> A" "A \<le> 2 ^ 53" "1 \<le> B" "1 \<le> R" "B * R \<le> 2 ^ 50"
    and "35 * A + 1 \<le> B * R"
  shows "js_lt (js_div (Num A) (Num R)) (js_mul (js_div (Num B) (Num 7)) (fl 0.2))"
proof -
  have Rpos: "0 < R" and Bpos: "0 < B" using assms(3,4) by linarith+
  have "B * 1 \<le> B * R" using assms(4) Bpos by (intro mult_left_mono) simp_all
  then have B50: "B \<le> 2 ^ 50" using assms(5) by simp
  have "1 * R \<le> B * R" using assms(3) Rpos by (intro mult_right_mono) simp_all
  then have R50: "R \<le> 2 ^ 50" using assms(5) by simp
  obtain q where q: "js_mul (js_div (Num B) (Num 7)) (fl 0.2) = Num q"
    "rel_lo ^ 3 * (B / 35) \<le> q"
    using rhs_bounds [OF assms(3) B50] by blast
  have "0 < rel_lo ^ 3 * (B / 35)" using rel_facts(1) Bpos by simp
  then have qpos: "0 < q" using q(2) by linarith
  show ?thesis
  proof (cases "A = 0")
    case True
    have z: "js_div (Num A) (Num R) = Num 0" using Rpos by (simp add: True fl_zero)
    show ?thesis using qpos by (simp only: z q(1) js_lt.simps)
  next
    case False
    with assms(1) have A1: "1 \<le> A" by simp
    obtain p where p: "js_div (Num A) (Num R) = Num p" "p \<le> rel_hi * (A / R)"
      using lhs_bounds [OF A1 assms(2) assms(4) R50] by blast
    have m: "rel_hi * (35 * A) < rel_lo ^ 3 * (B * R)"
      using assms(6) assms(5) by (rule margin_lt)
    have "rel_hi * (35 * A) / (35 * R) < rel_lo ^ 3 * (B * R) / (35 * R)"
      using m Rpos by (intro divide_strict_right_mono) simp_all
    moreover have "rel_hi * (35 * A) / (35 * R) = rel_hi * (A / R)" using Rpos by simp
    moreover have "rel_lo ^ 3 * (B * R) / (35 * R) = rel_lo ^ 3 * (B / 35)" using Rpos by simp
    ultimately have "rel_hi * (A / R) < rel_lo ^ 3 * (B / 35)" by simp
    with p(2) q(2) have "p < q" by linarith
    then show ?thesis by (simp only: p(1) q(1) js_lt.simps)
  qed
qed

lemma compare_ge:
  fixes A B R :: real
  assumes "1 \<le> A" "A \<le> 2 ^ 53" "1 \<le> B" "1 \<le> R" "B * R \<le> 2 ^ 50"
    and "B * R + 1 \<le> 35 * A"
  shows "\<not> js_lt (js_div (Num A) (Num R)) (js_mul (js_div (Num B) (Num 7)) (fl 0.2))"
proof -
  have Rpos: "0 < R" and Bpos: "0 < B" using assms(3,4) by linarith+
  have "B * 1 \<le> B * R" using assms(4) Bpos by (intro mult_left_mono) simp_all
  then have B50: "B \<le> 2 ^ 50" using assms(5) by simp
  have "1 * R \<le> B * R" using assms(3) Rpos by (intro mult_right_mono) simp_all
  then have R50: "R \<le> 2 ^ 50" using assms(5) by simp
  have BR0: "0 \<le> B * R" using Rpos Bpos by simp
  obtain q where q: "js_mul (js_div (Num B) (Num 7)) (fl 0.2) = Num q"
    "q \<le> rel_hi ^ 3 * (B / 35)"
    using rhs_bounds [OF assms(3) B50] by blast
  obtain p where p: "js_div (Num A) (Num R) = Num p" "rel_lo * (A / R) \<le> p"
    using lhs_bounds [OF assms(1) assms(2) assms(4) R50] by blast
  have m: "rel_hi ^ 3 * (B * R) \<le> rel_lo * (35 * A)"
    using assms(6) BR0 assms(5) by (rule margin_ge)
  have "rel_hi ^ 3 * (B * R) / (35 * R) \<le> rel_lo * (35 * A) / (35 * R)"
    using m Rpos by (intro divide_right_mono) simp_all
  moreover have "rel_lo * (35 * A) / (35 * R) = rel_lo * (A / R)" using Rpos by simp
  moreover have "rel_hi ^ 3 * (B * R) / (35 * R) = rel_hi ^ 3 * (B / 35)" using Rpos by simp
  ultimately have "rel_hi ^ 3 * (B / 35) \<le> rel_lo * (A / R)" by simp
  with p(2) q(2) have "q \<le> p" by linarith
  then show ?thesis by (simp only: p(1) q(1) js_lt.simps not_less)
qed

lemma fix_test_exact:
  fixes a b r :: int
  assumes "0 < b" "0 \<le> a" "0 < r" "b * r \<le> 2 ^ 50" "a < 2 ^ 53"
  shows "35 * a < b * r \<Longrightarrow>
      js_lt (js_div (js_of_int a) (js_of_int r)) (js_mul (js_div (js_of_int b) (Num 7)) (fl 0.2))"
    and "b * r < 35 * a \<Longrightarrow>
      \<not> js_lt (js_div (js_of_int a) (js_of_int r)) (js_mul (js_div (js_of_int b) (Num 7)) (fl 0.2))"
proof -
  have "b * 1 \<le> b * r" using assms(1,3) by (intro mult_left_mono) simp_all
  then have b50: "b \<le> 2 ^ 50" using assms(4) by simp
  have "1 * r \<le> b * r" using assms(1,3) by (intro mult_right_mono) simp_all
  then have r50: "r \<le> 2 ^ 50" using assms(4) by simp
  have "(2::int) ^ 50 < 2 ^ 53" by simp
  with b50 r50 have b53: "b < 2 ^ 53" and r53: "r < 2 ^ 53" by linarith+
  have ea: "js_of_int a = Num (of_int a)" using assms(2,5) by (rule js_of_int_exact)
  have eb: "js_of_int b = Num (of_int b)" using assms(1) b53 by (intro js_of_int_exact) simp_all
  have er: "js_of_int r = Num (of_int r)" using assms(3) r53 by (intro js_of_int_exact) simp_all
  let ?A = "real_of_int a" and ?B = "real_of_int b" and ?R = "real_of_int r"
  have A0: "?A = 0 \<or> 1 \<le> ?A"
  proof (cases "a = 0")
    case True then show ?thesis by simp
  next
    case False
    with assms(2) have "1 \<le> a" by simp
    then have "1 \<le> ?A" by simp
    then show ?thesis ..
  qed
  have A53: "?A \<le> 2 ^ 53"
  proof -
    have "real_of_int a \<le> real_of_int (2 ^ 53)" using assms(5) by (simp only: of_int_le_iff)
    then show ?thesis by simp
  qed
  have B1: "1 \<le> ?B" using assms(1) by simp
  have R1: "1 \<le> ?R" using assms(3) by simp
  have BR: "?B * ?R \<le> 2 ^ 50"
  proof -
    have "real_of_int (b * r) \<le> real_of_int (2 ^ 50)" using assms(4) by (simp only: of_int_le_iff)
    then show ?thesis by simp
  qed
  {
    assume "35 * a < b * r"
    then have "35 * a + 1 \<le> b * r" by simp
    then have "real_of_int (35 * a + 1) \<le> real_of_int (b * r)" by (simp only: of_int_le_iff)
    then have "35 * ?A + 1 \<le> ?B * ?R" by simp
    from compare_lt [OF A0 A53 B1 R1 BR this]
    show "js_lt (js_div (js_of_int a) (js_of_int r)) (js_mul (js_div (js_of_int b) (Num 7)) (fl 0.2))"
      by (simp only: ea eb er)
  }
  {
    assume h: "b * r < 35 * a"
    have "0 < b * r" using assms(1,3) by simp
    with h have "0 < a" by linarith
    then have A1: "1 \<le> ?A" by simp
    from h have "b * r + 1 \<le> 35 * a" by simp
    then have "real_of_int (b * r + 1) \<le> real_of_int (35 * a)" by (simp only: of_int_le_iff)
    then have "?B * ?R + 1 \<le> 35 * ?A" by simp
    from compare_ge [OF A1 A53 B1 R1 BR this]
    show "\<not> js_lt (js_div (js_of_int a) (js_of_int r)) (js_mul (js_div (js_of_int b) (Num 7)) (fl 0.2))"
      by (simp only: ea eb er simp_thms)
  }
qed

lemma spec_fix_outcome_int:
  assumes "0 < r"
  shows "spec_fix_outcome b a r = (if 35 * a < b * r then Resolved else Failed)"
proof -
  have "real_of_int a / real_of_int r < 0.2 * (real_of_int b / 7)
      \<longleftrightarrow> 35 * real_of_int a < real_of_int b * real_of_int r"
    using assms by (simp add: field_simps)
  also have "\<dots> \<longleftrightarrow> real_of_int (35 * a) < real_of_int (b * r)" by simp
  also have "\<dots> \<longleftrightarrow> 35 * a < b * r" by (simp only: of_int_less_iff)
  finally show ?thesis by (simp add: spec_fix_outcome_def)
qed

text \<open>
  Where \<open>35 * a = b * r\<close> the rounding decides, and it goes both ways: 5 reports
  before, 1 after and a rollout of 7 days pass the test, 35 reports before, 1 after and
  a rollout of 1 day do not.
\<close>

lemma fix_test_boundary:
  "js_lt (js_div (js_of_int 1) (js_of_int 7)) (js_mul (js_div (js_of_int 5) (Num 7)) (fl 0.2))"
  "\<not> js_lt (js_div (js_of_int 1) (js_of_int 1)) (js_mul (js_div (js_of_int 35) (Num 7)) (fl 0.2))"
  using fl_consts fl_boundary by (simp_all add: js_of_int_def fl_small_ints)

lemma add_to_cluster_fix_fields:
  "fix_status (add_to_cluster fb e c) = fix_status c"
  "fix_deployed_date (add_to_cluster fb e c) = fix_deployed_date c"
  "rollout_period_days (add_to_cluster fb e c) = rollout_period_days c"
  "reports_after_fix (add_to_cluster fb e c) = reports_after_fix c"
  "cluster_id (add_to_cluster fb e c) = cluster_id c"
  by (simp_all add: add_to_cluster_def Let_def)

lemma merge_all_fix_fields:
  "fix_status (merge_all c items) = fix_status c
   \<and> fix_deployed_date (merge_all c items) = fix_deployed_date c
   \<and> rollout_period_days (merge_all c items) = rollout_period_days c
   \<and> reports_after_fix (merge_all c items) = reports_after_fix c
   \<and> cluster_id (merge_all c items) = cluster_id c"
proof (induction items arbitrary: c)
  case Nil
  show ?case by (simp add: merge_all_def)
next
  case (Cons item items)
  have "merge_all c (item # items) = merge_all (add_to_cluster (fst item) (snd item) c) items"
    by (simp add: merge_all_def)
  then show ?case
    using Cons.IH [of "add_to_cluster (fst item) (snd item) c"]
    by (simp add: add_to_cluster_fix_fields)
qed

text \<open>
  Claim C5, as amended. For every cluster with fix status \<open>fix_deployed\<close> and a
  deployment date, whose days since the fix exceed the rollout period, and in which the
  reports before the fix \<open>b\<close>, the reports after the fix \<open>a\<close>, the rollout period
  \<open>r\<close> and the original severity are set (\<open>b\<close> and \<open>r\<close> not 0), one evaluation makes
  the status resolved or failed and never leaves it \<open>fix_deployed\<close>: resolved exactly
  when \<open>a / r < (b / 7) * 0.2\<close> holds in the arithmetic of doubles, every operation
  rounded, in this order; otherwise failed, with the current severity set to the original
  severity. For positive \<open>b\<close> and \<open>r\<close> with \<open>b * r\<close> at most \<open>2 ^ 50\<close> and \<open>a\<close> from
  0 to below \<open>2 ^ 53\<close>, the cluster is resolved when \<open>35 * a < b * r\<close> and failed when
  \<open>35 * a > b * r\<close>, which is the outcome of the specification's formula; only where
  \<open>35 * a = b * r\<close> the rounding decides.
\<close>

theorem C5_fix_outcome:
  assumes "fix_status c = Some FixDeployed" "truthy_int (fix_deployed_date c)"
    and "daysSinceFix now (or_int (fix_deployed_date c) 0) > real_of_int (rolloutDays c)"
    and "reports_before_fix c = Some b" "b \<noteq> 0" "reports_after_fix c = Some a"
    and "rollout_period_days c = Some r" "r \<noteq> 0"
    and "original_severity c = Some sev" "sev \<noteq> []"
  shows "(fix_status (fst (evaluate_fix now c)) = Some Resolved
            \<or> fix_status (fst (evaluate_fix now c)) = Some Failed)
       \<and> fix_status (fst (evaluate_fix now c)) \<noteq> Some FixDeployed
       \<and> (fix_status (fst (evaluate_fix now c)) = Some Resolved
            \<longleftrightarrow> js_lt (js_div (js_of_int a) (js_of_int r))
                  (js_mul (js_div (js_of_int b) (Num 7)) (fl 0.2)))
       \<and> (fix_status (fst (evaluate_fix now c)) = Some Failed
            \<longrightarrow> current_severity (fst (evaluate_fix now c)) = Some sev)
       \<and> (0 < b \<and> 0 \<le> a \<and> 0 < r \<and> b * r \<le> 2 ^ 50 \<and> a < 2 ^ 53
            \<longrightarrow> (35 * a < b * r \<longrightarrow> fix_status (fst (evaluate_fix now c)) = Some Resolved)
              \<and> (b * r < 35 * a \<longrightarrow> fix_status (fst (evaluate_fix now c)) = Some Failed)
              \<and> (35 * a \<noteq> b * r
                   \<longrightarrow> fix_status (fst (evaluate_fix now c)) = Some (spec_fix_outcome b a r)))"
proof -
  let ?t = "js_lt (js_div (js_of_int a) (js_of_int r))
              (js_mul (js_div (js_of_int b) (Num 7)) (fl 0.2))"
  have rd: "rolloutDays c = r" using assms(7,8) by (simp add: rolloutDays_def or_int_def)
  have bf: "or_int (reports_before_fix c) (int (count c)) = b"
    using assms(4,5) by (simp add: or_int_def)
  have af: "or_int (reports_after_fix c) 0 = a" using assms(6) by (simp add: or_int_def)
  have sv: "or_str (original_severity c) (severity c) = sev"
    using assms(9,10) by (simp add: or_str_def)
  have avgA: "avgAfterFix c = js_div (js_of_int a) (js_of_int r)"
    by (simp only: avgAfterFix_def af rd)
  have avgB: "avgBeforeFix c = js_div (js_of_int b) (Num 7)"
    by (simp only: avgBeforeFix_def bf)
  have ev: "evaluate_fix now c =
     (if ?t
      then (c \<lparr> fix_status := Some Resolved \<rparr>, [UpdateFixStatus (cluster_id c) Resolved])
      else (c \<lparr> fix_status := Some Failed, current_severity := Some sev \<rparr>,
            [UpdateFixFailed (cluster_id c) sev]))"
    by (simp only: evaluate_fix_elapsed [OF assms(1-3)] avgA avgB sv)
  have st: "fix_status (fst (evaluate_fix now c)) = Some (if ?t then Resolved else Failed)"
    by (simp add: ev)
  have iff: "fix_status (fst (evaluate_fix now c)) = Some Resolved \<longleftrightarrow> ?t"
    by (simp add: st)
  have sev: "fix_status (fst (evaluate_fix now c)) = Some Failed
      \<longrightarrow> current_severity (fst (evaluate_fix now c)) = Some sev"
    by (simp add: ev)
  have one: "fix_status (fst (evaluate_fix now c)) = Some Resolved
      \<or> fix_status (fst (evaluate_fix now c)) = Some Failed"
    by (simp add: st)
  have never: "fix_status (fst (evaluate_fix now c)) \<noteq> Some FixDeployed"
    by (simp add: st)
  have exact: "0 < b \<and> 0 \<le> a \<and> 0 < r \<and> b * r \<le> 2 ^ 50 \<and> a < 2 ^ 53
      \<longrightarrow> (35 * a < b * r \<longrightarrow> fix_status (fst (evaluate_fix now c)) = Some Resolved)
        \<and> (b * r < 35 * a \<longrightarrow> fix_status (fst (evaluate_fix now c)) = Some Failed)
        \<and> (35 * a \<noteq> b * r
             \<longrightarrow> fix_status (fst (evaluate_fix now c)) = Some (spec_fix_outcome b a r))"
  proof (intro impI)
    assume h: "0 < b \<and> 0 \<le> a \<and> 0 < r \<and> b * r \<le> 2 ^ 50 \<and> a < 2 ^ 53"
    then have h': "0 < b" "0 \<le> a" "0 < r" "b * r \<le> 2 ^ 50" "a < 2 ^ 53" by simp_all
    note t = fix_test_exact [OF h']
    have lt: "35 * a < b * r \<longrightarrow> fix_status (fst (evaluate_fix now c)) = Some Resolved"
      using t(1) by (simp add: st)
    have gt: "b * r < 35 * a \<longrightarrow> fix_status (fst (evaluate_fix now c)) = Some Failed"
      using t(2) by (simp add: st)
    have sp: "35 * a \<noteq> b * r
        \<longrightarrow> fix_status (fst (evaluate_fix now c)) = Some (spec_fix_outcome b a r)"
      using lt gt by (auto simp: spec_fix_outcome_int [OF h'(3)])
    from lt gt sp
    show "(35 * a < b * r \<longrightarrow> fix_status (fst (evaluate_fix now c)) = Some Resolved)
        \<and> (b * r < 35 * a \<longrightarrow> fix_status (fst (evaluate_fix now c)) = Some Failed)
        \<and> (35 * a \<noteq> b * r
             \<longrightarrow> fix_status (fst (evaluate_fix now c)) = Some (spec_fix_outcome b a r))"
      by - (intro conjI; assumption)
  qed
  from one never iff sev exact show ?thesis by - (intro conjI; assumption)
qed

theorem C5_fix_outcome_witness:
  "fix_status (sample_fixed_cluster 50 (Some 50) (Some 2)) = Some FixDeployed
   \<and> truthy_int (fix_deployed_date (sample_fixed_cluster 50 (Some 50) (Some 2)))
   \<and> daysSinceFix 864001000 (or_int (fix_deployed_date (sample_fixed_cluster 50 (Some 50) (Some 2))) 0)
        > real_of_int (rolloutDays (sample_fixed_cluster 50 (Some 50) (Some 2)))
   \<and> reports_before_fix (sample_fixed_cluster 50 (Some 50) (Some 2)) = Some 50
   \<and> reports_after_fix (sample_fixed_cluster 50 (Some 50) (Some 2)) = Some 2
   \<and> rollout_period_days (sample_fixed_cluster 50 (Some 50) (Some 2)) = Some 7
   \<and> original_severity (sample_fixed_cluster 50 (Some 50) (Some 2)) = Some ''P0''
   \<and> (35 * 2 :: int) < 50 * 7
   \<and> spec_fix_outcome 50 2 7 = Resolved
   \<and> fix_status (fst (evaluate_fix 864001000 (sample_fixed_cluster 50 (Some 50) (Some 2))))
       = Some Resolved
   \<and> reports_after_fix (sample_fixed_cluster 50 (Some 50) (Some 20)) = Some 20
   \<and> (50 * 7 :: int) < 35 * 20
   \<and> spec_fix_outcome 50 20 7 = Failed
   \<and> fix_status (fst (evaluate_fix 864001000 (sample_fixed_cluster 50 (Some 50) (Some 20))))
       = Some Failed
   \<and> current_severity (fst (evaluate_fix 864001000 (sample_fixed_cluster 50 (Some 50) (Some 20))))
       = Some ''P0''"
proof -
  let ?c = "sample_fixed_cluster 50 (Some 50) (Some 2)"
  let ?d = "sample_fixed_cluster 50 (Some 50) (Some 20)"
  have c1: "fix_status ?c = Some FixDeployed" and d1: "fix_status ?d = Some FixDeployed"
    by (simp_all add: sample_fixed_cluster_def)
  have c2: "truthy_int (fix_deployed_date ?c)" and d2: "truthy_int (fix_deployed_date ?d)"
    by (simp_all add: sample_fixed_cluster_def truthy_int_def)
  have c3: "daysSinceFix 864001000 (or_int (fix_deployed_date ?c) 0) > real_of_int (rolloutDays ?c)"
    and d3: "daysSinceFix 864001000 (or_int (fix_deployed_date ?d) 0) > real_of_int (rolloutDays ?d)"
    by (simp_all add: sample_fixed_cluster_def daysSinceFix_def rolloutDays_def or_int_def)
  have cf: "reports_before_fix ?c = Some 50" "reports_after_fix ?c = Some 2"
    "rollout_period_days ?c = Some 7" "original_severity ?c = Some ''P0''"
    by (simp_all add: sample_fixed_cluster_def)
  have df: "reports_before_fix ?d = Some 50" "reports_after_fix ?d = Some 20"
    "rollout_period_days ?d = Some 7" "original_severity ?d = Some ''P0''"
    by (simp_all add: sample_fixed_cluster_def)
  have nz: "(50::int) \<noteq> 0" "(7::int) \<noteq> 0" "''P0'' \<noteq> []" by simp_all
  note mc = C5_fix_outcome [OF c1 c2 c3 cf(1) nz(1) cf(2) cf(3) nz(2) cf(4) nz(3)]
  note md = C5_fix_outcome [OF d1 d2 d3 df(1) nz(1) df(2) df(3) nz(2) df(4) nz(3)]
  have rc: "fix_status (fst (evaluate_fix 864001000 ?c)) = Some Resolved"
    using mc by simp
  have rd: "fix_status (fst (evaluate_fix 864001000 ?d)) = Some Failed"
    using md by simp
  have sd: "current_severity (fst (evaluate_fix 864001000 ?d)) = Some ''P0''"
    using md rd by simp
  have sp: "spec_fix_outcome 50 2 7 = Resolved" "spec_fix_outcome 50 20 7 = Failed"
    by (simp_all add: spec_fix_outcome_def)
  from c1 c2 c3 cf df(2) sp rc rd sd show ?thesis by simp
qed

text \<open>
  The claim as first stated, with the exact comparison, fails at an exact reduction of
  80 percent: a cluster of 5 members, marked fixed with 5 reports before, 1 report
  after, fix deployed 10 days ago with a rollout of 7 days. Exactly, \<open>1 / 7\<close> is not
  below \<open>0.2 * (5 / 7)\<close>, so the formula gives failed; in doubles \<open>5 / 7 * 0.2\<close> rounds
  to the double above the one of \<open>1 / 7\<close>, and the code resolves the cluster.
\<close>

theorem C5_fix_outcome_counterexample:
  "fix_status (sample_fixed_cluster 5 (Some 5) (Some 1)) = Some FixDeployed
   \<and> fix_deployed_date (sample_fixed_cluster 5 (Some 5) (Some 1)) = Some 1000
   \<and> rollout_period_days (sample_fixed_cluster 5 (Some 5) (Some 1)) = Some 7
   \<and> reports_before_fix (sample_fixed_cluster 5 (Some 5) (Some 1)) = Some 5
   \<and> reports_after_fix (sample_fixed_cluster 5 (Some 5) (Some 1)) = Some 1
   \<and> count (sample_fixed_cluster 5 (Some 5) (Some 1)) = 5
   \<and> daysSinceFix 864001000 1000 > 7
   \<and> spec_fix_outcome 5 1 7 = Failed
   \<and> fix_status (fst (evaluate_fix 864001000 (sample_fixed_cluster 5 (Some 5) (Some 1))))
       = Some Resolved"
proof -
  let ?c = "sample_fixed_cluster 5 (Some 5) (Some 1)"
  have f: "fix_status ?c = Some FixDeployed" "fix_deployed_date ?c = Some 1000"
    "rollout_period_days ?c = Some 7" "reports_before_fix ?c = Some 5"
    "reports_after_fix ?c = Some 1" "count ?c = 5"
    by (simp_all add: sample_fixed_cluster_def)
  have d: "daysSinceFix 864001000 1000 > 7" by (simp add: daysSinceFix_def)
  have sp: "spec_fix_outcome 5 1 7 = Failed" by (simp add: spec_fix_outcome_def)
  have a: "avgAfterFix ?c = js_div (js_of_int 1) (js_of_int 7)"
    by (simp add: avgAfterFix_def rolloutDays_def or_int_def f)
  have b: "avgBeforeFix ?c = js_div (js_of_int 5) (Num 7)"
    by (simp add: avgBeforeFix_def or_int_def f)
  have t: "js_lt (avgAfterFix ?c) (js_mul (avgBeforeFix ?c) (fl 0.2))"
    by (simp only: a b fix_test_boundary(1))
  have "evaluate_fix 864001000 ?c
      = (?c \<lparr> fix_status := Some Resolved \<rparr>, [UpdateFixStatus (cluster_id ?c) Resolved])"
    using t d by (simp add: evaluate_fix_def f truthy_int_def or_int_def rolloutDays_def)
  then have r: "fix_status (fst (evaluate_fix 864001000 ?c)) = Some Resolved" by simp
  from f d sp r show ?thesis by simp
qed

text \<open>
  Claim C6. For every cluster with fix status \<open>fix_deployed\<close> and a deployment date,
  whose days since the fix do not exceed the rollout period, one evaluation adds exactly
  1 to the reports after the fix (an unset number counting as 0), changes nothing else
  of the cluster and writes that one number; the same holds after any number of new
  reports were merged into the cluster during the pass; and the pass evaluates each
  cluster of the working set once.
\<close>

theorem C6_rollout_increment:
  assumes "fix_status c = Some FixDeployed" "truthy_int (fix_deployed_date c)"
    and "daysSinceFix now (or_int (fix_deployed_date c) 0) \<le> real_of_int (rolloutDays c)"
  shows "fst (evaluate_fix now c) = c \<lparr> reports_after_fix := Some (or_int (reports_after_fix c) 0 + 1) \<rparr>
       \<and> snd (evaluate_fix now c)
           = [UpdateReportsAfter (cluster_id c) (or_int (reports_after_fix c) 0 + 1)]
       \<and> (\<forall>items. reports_after_fix (fst (evaluate_fix now (merge_all c items)))
                     = Some (or_int (reports_after_fix c) 0 + 1)
                 \<and> snd (evaluate_fix now (merge_all c items))
                     = [UpdateReportsAfter (cluster_id c) (or_int (reports_after_fix c) 0 + 1)])
       \<and> (\<forall>cs i. i < length cs \<and> cs ! i = c
              \<longrightarrow> length (fst (evaluate_all now cs)) = length cs
                \<and> reports_after_fix (fst (evaluate_all now cs) ! i)
                    = Some (or_int (reports_after_fix c) 0 + 1))"
proof -
  note ev = evaluate_fix_in_window [OF assms]
  have merged: "reports_after_fix (fst (evaluate_fix now (merge_all c items)))
        = Some (or_int (reports_after_fix c) 0 + 1)
      \<and> snd (evaluate_fix now (merge_all c items))
        = [UpdateReportsAfter (cluster_id c) (or_int (reports_after_fix c) 0 + 1)]" for items
  proof -
    let ?m = "merge_all c items"
    note f = merge_all_fix_fields [of c items]
    have a: "fix_status ?m = Some FixDeployed" using f assms(1) by simp
    have b: "truthy_int (fix_deployed_date ?m)" using f assms(2) by simp
    have d: "daysSinceFix now (or_int (fix_deployed_date ?m) 0) \<le> real_of_int (rolloutDays ?m)"
      using f assms(3) by (simp add: rolloutDays_def)
    show ?thesis using evaluate_fix_in_window [OF a b d] f by simp
  qed
  have pass: "length (fst (evaluate_all now cs)) = length cs
      \<and> reports_after_fix (fst (evaluate_all now cs) ! i) = Some (or_int (reports_after_fix c) 0 + 1)"
    if "i < length cs \<and> cs ! i = c" for cs i
    using that by (simp add: evaluate_all_def ev)
  from merged pass show ?thesis by (simp add: ev)
qed

theorem C6_rollout_increment_witness:
  "fix_status (sample_fixed_cluster 5 (Some 5) (Some 2)) = Some FixDeployed
   \<and> truthy_int (fix_deployed_date (sample_fixed_cluster 5 (Some 5) (Some 2)))
   \<and> daysSinceFix 86401000 (or_int (fix_deployed_date (sample_fixed_cluster 5 (Some 5) (Some 2))) 0)
        \<le> real_of_int (rolloutDays (sample_fixed_cluster 5 (Some 5) (Some 2)))
   \<and> reports_after_fix (fst (evaluate_fix 86401000 (sample_fixed_cluster 5 (Some 5) (Some 2))))
       = Some 3
   \<and> reports_after_fix (fst (evaluate_fix 86401000
        (merge_all (sample_fixed_cluster 5 (Some 5) (Some 2))
           [(sample_feedback ''f2'' ''app crashes again'', [0, 1]),
            (sample_feedback ''f3'' ''app crashes once more'', [1, 1])]))) = Some 3"
proof -
  let ?c = "sample_fixed_cluster 5 (Some 5) (Some 2)"
  have h1: "fix_status ?c = Some FixDeployed"
    by (simp add: sample_fixed_cluster_def)
  have h2: "truthy_int (fix_deployed_date ?c)"
    by (simp add: sample_fixed_cluster_def truthy_int_def)
  have h3: "daysSinceFix 86401000 (or_int (fix_deployed_date ?c) 0) \<le> real_of_int (rolloutDays ?c)"
    by (simp add: sample_fixed_cluster_def daysSinceFix_def rolloutDays_def or_int_def)
  have v: "or_int (reports_after_fix ?c) 0 + 1 = 3"
    by (simp add: sample_fixed_cluster_def or_int_def)
  note main = C6_rollout_increment [OF h1 h2 h3]
  have one: "reports_after_fix (fst (evaluate_fix 86401000 ?c)) = Some 3"
    using main v by simp
  have two: "reports_after_fix (fst (evaluate_fix 86401000
        (merge_all ?c [(sample_feedback ''f2'' ''app crashes again'', [0, 1]),
                       (sample_feedback ''f3'' ''app crashes once more'', [1, 1])]))) = Some 3"
    using main v by simp
  from h1 h2 h3 one two show ?thesis by simp
qed

section \<open>Facts about matching\<close>

lemma find_first_Some:
  assumes "find_first P xs = Some i"
  shows "i < length xs \<and> P (xs ! i)"
  using assms
proof (induction xs arbitrary: i)
  case Nil
  then show ?case by simp
next
  case (Cons x xs)
  show ?case
  proof (cases "P x")
    case True
    with Cons.prems show ?thesis by simp
  next
    case False
    with Cons.prems obtain j where j: "find_first P xs = Some j" "i = Suc j"
      by auto
    with Cons.IH [of j] show ?thesis by simp
  qed
qed

lemma embedding_tier_Some:
  assumes "embedding_tier cfg embedding cs = Some i"
  shows "i < length cs \<and> embedding_candidate cfg embedding (cs ! i)"
  using assms by (auto simp: embedding_tier_def split: if_splits dest: find_first_Some)

lemma text_tier_Some:
  assumes "text_tier classification txt cs = Some i"
  shows "i < length cs \<and> text_candidate classification (toLowerCase txt) (cs ! i)"
  using assms by (auto simp: text_tier_def dest: find_first_Some)

lemma find_match_Some:
  assumes "find_match env cfg feedback embedding t cs = (Some i, t')"
  shows "i < length cs \<and> \<not> is_user_specific_cluster (cs ! i)"
proof (cases "embedding_tier cfg embedding cs")
  case None
  with assms have "text_tier (classifyFeedback env t (content feedback)) (content feedback) cs = Some i"
    by (simp add: find_match_def)
  then show ?thesis
    using text_tier_Some text_candidate_def by blast
next
  case (Some j)
  with assms have "j = i" by (simp add: find_match_def)
  with Some show ?thesis
    using embedding_tier_Some embedding_candidate_def by blast
qed

lemma process_feedback_keeps_user_specific:
  assumes "i < length (clusters st)" "is_user_specific_cluster (clusters st ! i)"
  shows "i < length (clusters (process_feedback env cfg already st fb))
       \<and> clusters (process_feedback env cfg already st fb) ! i = clusters st ! i"
proof -
  let ?e = "generateEmbedding env (tick st) (content fb)"
  obtain m t where fm: "find_match env cfg fb ?e (tick st + 1) (clusters st) = (m, t)"
    by (cases "find_match env cfg fb ?e (tick st + 1) (clusters st)")
  show ?thesis
  proof (cases m)
    case None
    with fm assms(1) show ?thesis
      by (simp add: process_feedback_def process_user_specific_def process_unmatched_def
          Let_def nth_append)
  next
    case (Some j)
    with fm have "j < length (clusters st) \<and> \<not> is_user_specific_cluster (clusters st ! j)"
      using find_match_Some by blast
    with assms(2) have "j \<noteq> i" by auto
    with fm Some assms(1) show ?thesis
      by (simp add: process_feedback_def process_user_specific_def process_matched_def
          Let_def nth_append)
  qed
qed

text \<open>
  Claim C3. A cluster of the candidate list that has exactly one member and a
  user-specific representative text is, for every incoming feedback, embedding and
  classification, not a candidate of the embedding tier nor of the text tier (whether
  its phrases or its keywords would match), is not the cluster either tier or their
  combination selects, and comes out of the processing of the feedback unchanged.
\<close>

theorem C3_user_specific_never_matched:
  assumes "is_user_specific_cluster (cs ! i)"
  shows "\<not> embedding_candidate cfg embedding (cs ! i)
       \<and> \<not> text_candidate classification feedbackLower (cs ! i)
       \<and> embedding_tier cfg embedding cs \<noteq> Some i
       \<and> text_tier classification txt cs \<noteq> Some i
       \<and> fst (find_match env cfg feedback embedding t cs) \<noteq> Some i
       \<and> (\<forall>st already. clusters st = cs \<and> i < length cs
             \<longrightarrow> clusters (process_feedback env cfg already st feedback) ! i = cs ! i)"
proof -
  have a: "\<not> embedding_candidate cfg embedding (cs ! i)"
    using assms by (simp add: embedding_candidate_def)
  have b: "\<not> text_candidate classification feedbackLower (cs ! i)"
    using assms by (simp add: text_candidate_def)
  have c: "embedding_tier cfg embedding cs \<noteq> Some i"
    using assms embedding_tier_Some embedding_candidate_def by blast
  have d: "text_tier classification txt cs \<noteq> Some i"
    using assms text_tier_Some text_candidate_def by blast
  have e: "fst (find_match env cfg feedback embedding t cs) \<noteq> Some i"
    using assms find_match_Some [of env cfg feedback embedding t cs i]
    by (cases "find_match env cfg feedback embedding t cs") auto
  have f: "clusters (process_feedback env cfg already st feedback) ! i = cs ! i"
    if "clusters st = cs \<and> i < length cs" for st already
    using that assms process_feedback_keeps_user_specific [of i st env cfg already feedback]
    by simp
  from a b c d e f show ?thesis by blast
qed

theorem C3_user_specific_never_matched_witness:
  "is_user_specific_cluster ([sample_user_cluster, sample_crash_cluster] ! 0)
   \<and> centroid sample_user_cluster = [1, 0] \<and> cosineSimilarity [1, 0] [1, 0] = Num 1
   \<and> embedding_tier default_config [1, 0] [sample_user_cluster, sample_crash_cluster] = Some 1
   \<and> text_tier sample_classification ''App crashes on resume again''
        [sample_user_cluster, sample_crash_cluster] = Some 1
   \<and> embedding_tier default_config [1, 0] [sample_user_cluster, sample_crash_cluster] \<noteq> Some 0
   \<and> text_tier sample_classification ''App crashes on resume again''
        [sample_user_cluster, sample_crash_cluster] \<noteq> Some 0"
proof -
  let ?cs = "[sample_user_cluster, sample_crash_cluster]"
  have u: "is_user_specific_cluster sample_user_cluster" by code_simp
  have n: "\<not> is_user_specific_cluster sample_crash_cluster" by code_simp
  have cu: "centroid sample_user_cluster = [1, 0]"
    by (simp add: sample_user_cluster_def sample_cluster_def new_cluster_def)
  have cc: "centroid sample_crash_cluster = [1, 0]"
    by (simp add: sample_crash_cluster_def sample_cluster_def new_cluster_def)
  have sim: "cosineSimilarity [1, 0] [1, 0] = Num 1"
    by (simp add: cosineSimilarity_def cos_loop_def cos_step_def eval_nat_numeral
        upt_conv_Cons fl_zero fl_small_ints)
  have p: "phrase_match (toLowerCase ''App crashes on resume again'') sample_crash_cluster"
    by code_simp
  have e1: "embedding_tier default_config [1, 0] ?cs = Some 1"
    by (simp add: embedding_tier_def embedding_candidate_def u n cc sim default_config_def)
  have t1: "text_tier sample_classification ''App crashes on resume again'' ?cs = Some 1"
    by (simp add: text_tier_def text_candidate_def u n p)
  have h: "is_user_specific_cluster (?cs ! 0)" using u by simp
  note main = C3_user_specific_never_matched [OF h, of default_config "[1, 0]"
      sample_classification _ "''App crashes on resume again''"]
  from main have e0: "embedding_tier default_config [1, 0] ?cs \<noteq> Some 0"
    and t0: "text_tier sample_classification ''App crashes on resume again'' ?cs \<noteq> Some 0"
    by blast+
  from h cu sim e1 t1 e0 t0 show ?thesis by blast
qed

section \<open>The user-specific predicate on first-person texts\<close>

text \<open>
  Claim C4 fails on the code. The text below has the first-person phrasing "I was
  charged" and the account-scoped noun "account". The second pattern of the first
  battery matches the text as written, but the predicate tests the lower-cased text,
  where the upper-case \<open>I\<close> of the pattern matches nothing; no other pattern of the
  first battery matches; the first pattern of the second battery ("app crashes") does,
  and the predicate returns false. Without the systemic phrase the result is false as
  well, since the default pattern needs "my".
\<close>

theorem C4_first_person_not_detected:
  "rx_test (userSpecificPatterns ! 1) ''I was charged on the account and the app crashes''
   \<and> \<not> rx_test (userSpecificPatterns ! 1)
          (toLowerCase ''I was charged on the account and the app crashes'')
   \<and> isUserSpecificFeedback ''I was charged on the account and the app crashes'' = False
   \<and> isUserSpecificFeedback ''I was charged on the account'' = False"
  by code_simp

section \<open>Facts about the digest\<close>

lemma set_sort_by_priority: "set (sort_by_priority cs) = set cs"
  by (simp add: sort_by_priority_def)

lemma resolved_not_in_top_issues:
  assumes "issue \<in> set (top_issues (assemble_digest cfg cs))"
  shows "fix_status (pi_cluster issue) \<noteq> Some Resolved \<and> count (pi_cluster issue) > 1"
proof -
  from assms obtain c where c: "issue = to_issue cfg c" "c \<in> set cs" "count c > 1"
    "fix_status c = None \<or> fix_status c = Some Open \<or> fix_status c = Some FixDeployed
       \<or> fix_status c = Some Failed"
    by (auto simp: assemble_digest_def Let_def set_sort_by_priority dest!: in_set_takeD)
  then show ?thesis by (auto simp: to_issue_def)
qed

text \<open>
  Claim C8 fails on the code for clusters of one member. The buckets of the general
  issues are filtered by fix status and leave the resolved ones out (lemma
  \<open>resolved_not_in_top_issues\<close>); the buckets of the single-member clusters are not
  filtered by fix status, and a resolved cluster of one member is listed under
  individual support.
\<close>

theorem C8_resolved_singleton_listed:
  "count sample_resolved_single = 1
   \<and> fix_status sample_resolved_single = Some Resolved
   \<and> map pi_cluster (individual_support (assemble_digest default_config [sample_resolved_single]))
       = [sample_resolved_single]"
proof -
  have np: "\<not> isPositiveFeedback sample_resolved_single" by code_simp
  have cnt: "count sample_resolved_single = 1"
    by (simp add: sample_resolved_single_def sample_cluster_def new_cluster_def)
  have st: "fix_status sample_resolved_single = Some Resolved"
    by (simp add: sample_resolved_single_def)
  have "map pi_cluster (individual_support (assemble_digest default_config [sample_resolved_single]))
      = [sample_resolved_single]"
    by (simp add: assemble_digest_def np cnt sort_by_priority_def to_issue_def)
  with cnt st show ?thesis by simp
qed

section \<open>Facts about the clustering pass\<close>

lemma process_feedback_already:
  assumes "fb_id fb \<in> set already"
  shows "clusters (process_feedback env cfg already st fb) = clusters st
       \<and> members (process_feedback env cfg already st fb) = members st
       \<and> writes (process_feedback env cfg already st fb) = writes st
       \<and> tick (process_feedback env cfg already st fb) = tick st"
  using assms by (simp add: process_feedback_def)

lemma pass_already:
  assumes "\<forall>fb\<in>set fbs. fb_id fb \<in> set already"
  shows "clusters (foldl (process_feedback env cfg already) st fbs) = clusters st
       \<and> members (foldl (process_feedback env cfg already) st fbs) = members st
       \<and> writes (foldl (process_feedback env cfg already) st fbs) = writes st
       \<and> tick (foldl (process_feedback env cfg already) st fbs) = tick st"
  using assms
proof (induction fbs arbitrary: st)
  case Nil
  show ?case by simp
next
  case (Cons fb fbs)
  have here: "fb_id fb \<in> set already" and rest: "\<forall>fb\<in>set fbs. fb_id fb \<in> set already"
    using Cons.prems by simp_all
  show ?case
    using Cons.IH [OF rest, of "process_feedback env cfg already st fb"]
      process_feedback_already [OF here, of env cfg st]
    by simp
qed

lemma set_insert_member_if_absent:
  "set (insert_member_if_absent cid fid ms) = insert (cid, fid) (set ms)"
  by (auto simp: insert_member_if_absent_def)

lemma process_feedback_records:
  assumes "recorded already st"
  shows "recorded already (process_feedback env cfg already st fb)
       \<and> fb_id fb \<in> set (processed (process_feedback env cfg already st fb))
       \<and> set (processed st) \<subseteq> set (processed (process_feedback env cfg already st fb))
       \<and> set (members st) \<subseteq> set (members (process_feedback env cfg already st fb))"
proof -
  let ?e = "generateEmbedding env (tick st) (content fb)"
  obtain m t where fm: "find_match env cfg fb ?e (tick st + 1) (clusters st) = (m, t)"
    by (cases "find_match env cfg fb ?e (tick st + 1) (clusters st)")
  show ?thesis
  proof (cases m)
    case None
    with fm assms show ?thesis
      by (auto simp: recorded_def process_feedback_def process_user_specific_def
          process_unmatched_def Let_def set_insert_member_if_absent)
  next
    case (Some i)
    with fm assms show ?thesis
      by (auto simp: recorded_def process_feedback_def process_user_specific_def
          process_matched_def Let_def set_insert_member_if_absent)
  qed
qed

lemma pass_records:
  assumes "recorded already st"
  shows "recorded already (foldl (process_feedback env cfg already) st fbs)
       \<and> fb_id ` set fbs \<subseteq> set (processed (foldl (process_feedback env cfg already) st fbs))
       \<and> set (processed st) \<subseteq> set (processed (foldl (process_feedback env cfg already) st fbs))
       \<and> set (members st) \<subseteq> set (members (foldl (process_feedback env cfg already) st fbs))"
  using assms
proof (induction fbs arbitrary: st)
  case Nil
  then show ?case by simp
next
  case (Cons fb fbs)
  let ?st = "process_feedback env cfg already st fb"
  note one = process_feedback_records [OF Cons.prems, of env cfg fb]
  then have r: "recorded already ?st" by simp
  note rest = Cons.IH [OF r]
  from one rest show ?case by auto
qed

lemma pass_members_cover:
  "fb_id ` set fbs
     \<subseteq> snd ` set (members (clusterFeedbacksWithEmbeddings env cfg rows ms fbs))"
proof -
  let ?init = "initial_state env rows ms"
  let ?st = "foldl (process_feedback env cfg (map snd ms)) ?init fbs"
  have r0: "recorded (map snd ms) ?init"
    by (simp add: recorded_def initial_state_def)
  note p = pass_records [OF r0, of env cfg fbs]
  have "set (map snd ms) \<subseteq> snd ` set (members ?st)"
    using p by (auto simp: initial_state_def)
  moreover have "set (processed ?st) \<subseteq> set (map snd ms) \<union> snd ` set (members ?st)"
    using p by (simp add: recorded_def)
  moreover have "fb_id ` set fbs \<subseteq> set (processed ?st)"
    using p by simp
  ultimately show ?thesis
    unfolding clusterFeedbacksWithEmbeddings_def by blast
qed

lemma second_pass_unchanged:
  assumes "\<forall>fb\<in>set fbs. fb_id fb \<in> snd ` set ms"
  shows "clusters (clusterFeedbacksWithEmbeddings env cfg rows ms fbs) = load_clusters env rows
       \<and> members (clusterFeedbacksWithEmbeddings env cfg rows ms fbs) = ms
       \<and> writes (clusterFeedbacksWithEmbeddings env cfg rows ms fbs) = []
       \<and> tick (clusterFeedbacksWithEmbeddings env cfg rows ms fbs) = 0"
proof -
  have "\<forall>fb\<in>set fbs. fb_id fb \<in> set (map snd ms)" using assms by simp
  from pass_already [OF this, of env cfg "initial_state env rows ms"]
  show ?thesis
    by (simp add: clusterFeedbacksWithEmbeddings_def initial_state_def)
qed

text \<open>
  Claim C7. When the membership of every feedback of the batch is recorded in
  \<open>cluster_members\<close>, the clustering pass leaves the working set as it was loaded
  (every count and centroid as stored), inserts no membership, writes nothing to
  \<open>clusters\<close> and calls no collaborator. After any first pass over a batch every
  feedback of the batch has a membership, so a second pass over the same batch, on the
  memberships the first one left and whatever rows are stored then, changes nothing.
\<close>

theorem C7_second_pass_idempotent:
  "((\<forall>fb\<in>set fbs. fb_id fb \<in> snd ` set ms)
      \<longrightarrow> clusters (clusterFeedbacksWithEmbeddings env cfg rows ms fbs) = load_clusters env rows
        \<and> members (clusterFeedbacksWithEmbeddings env cfg rows ms fbs) = ms
        \<and> writes (clusterFeedbacksWithEmbeddings env cfg rows ms fbs) = []
        \<and> tick (clusterFeedbacksWithEmbeddings env cfg rows ms fbs) = 0)
   \<and> (\<forall>env2 rows2.
        clusters (clusterFeedbacksWithEmbeddings env2 cfg rows2
                    (members (clusterFeedbacksWithEmbeddings env cfg rows ms fbs)) fbs)
          = load_clusters env2 rows2
        \<and> members (clusterFeedbacksWithEmbeddings env2 cfg rows2
                    (members (clusterFeedbacksWithEmbeddings env cfg rows ms fbs)) fbs)
          = members (clusterFeedbacksWithEmbeddings env cfg rows ms fbs)
        \<and> writes (clusterFeedbacksWithEmbeddings env2 cfg rows2
                    (members (clusterFeedbacksWithEmbeddings env cfg rows ms fbs)) fbs) = [])"
proof -
  have first: "\<forall>fb\<in>set fbs.
      fb_id fb \<in> snd ` set (members (clusterFeedbacksWithEmbeddings env cfg rows ms fbs))"
    using pass_members_cover [of fbs env cfg rows ms] by blast
  show ?thesis
    using second_pass_unchanged [of fbs ms env cfg rows]
      second_pass_unchanged [OF first]
    by blast
qed

theorem C7_second_pass_idempotent_witness:
  "fb_id (sample_feedback ''f1'' ''app crashes on resume'') \<in> snd ` set [(''c1'', ''f1'')]
   \<and> members (clusterFeedbacksWithEmbeddings sample_env default_config [] [(''c1'', ''f1'')]
                [sample_feedback ''f1'' ''app crashes on resume'']) = [(''c1'', ''f1'')]
   \<and> writes (clusterFeedbacksWithEmbeddings sample_env default_config [] [(''c1'', ''f1'')]
                [sample_feedback ''f1'' ''app crashes on resume'']) = []
   \<and> members (clusterFeedbacksWithEmbeddings sample_env default_config [] []
                [sample_feedback ''f1'' ''app crashes on resume'']) = [(''uuid-xxx'', ''f1'')]
   \<and> members (clusterFeedbacksWithEmbeddings sample_env default_config [] [(''uuid-xxx'', ''f1'')]
                [sample_feedback ''f1'' ''app crashes on resume'']) = [(''uuid-xxx'', ''f1'')]
   \<and> writes (clusterFeedbacksWithEmbeddings sample_env default_config [] [(''uuid-xxx'', ''f1'')]
                [sample_feedback ''f1'' ''app crashes on resume'']) = []"
proof -
  let ?fb = "sample_feedback ''f1'' ''app crashes on resume''"
  have h: "\<forall>fb\<in>set [?fb]. fb_id fb \<in> snd ` set [(''c1'', ''f1'')]"
    by (simp add: sample_feedback_def)
  have n: "\<not> isUserSpecificFeedback ''app crashes on resume''" by code_simp
  have first: "members (clusterFeedbacksWithEmbeddings sample_env default_config [] [] [?fb])
      = [(''uuid-xxx'', ''f1'')]"
    by (simp add: clusterFeedbacksWithEmbeddings_def initial_state_def load_clusters_def
        process_feedback_def sample_feedback_def n find_match_def embedding_tier_def text_tier_def
        process_unmatched_def insert_member_if_absent_def sample_env_def Let_def
        eval_nat_numeral)
  note main = C7_second_pass_idempotent [of "[?fb]" "[(''c1'', ''f1'')]" sample_env default_config "[]"]
  note again = C7_second_pass_idempotent [of "[?fb]" "[]" sample_env default_config "[]"]
  have one: "members (clusterFeedbacksWithEmbeddings sample_env default_config [] [(''c1'', ''f1'')] [?fb])
        = [(''c1'', ''f1'')]
      \<and> writes (clusterFeedbacksWithEmbeddings sample_env default_config [] [(''c1'', ''f1'')] [?fb]) = []"
    using main h by blast
  have two: "members (clusterFeedbacksWithEmbeddings sample_env default_config []
          (members (clusterFeedbacksWithEmbeddings sample_env default_config [] [] [?fb])) [?fb])
        = members (clusterFeedbacksWithEmbeddings sample_env default_config [] [] [?fb])
      \<and> writes (clusterFeedbacksWithEmbeddings sample_env default_config []
          (members (clusterFeedbacksWithEmbeddings sample_env default_config [] [] [?fb])) [?fb]) = []"
    using again by blast
  have id: "fb_id ?fb \<in> snd ` set [(''c1'', ''f1'')]"
    by (simp add: sample_feedback_def)
  have two': "members (clusterFeedbacksWithEmbeddings sample_env default_config []
          [(''uuid-xxx'', ''f1'')] [?fb]) = [(''uuid-xxx'', ''f1'')]
      \<and> writes (clusterFeedbacksWithEmbeddings sample_env default_config []
          [(''uuid-xxx'', ''f1'')] [?fb]) = []"
    using two by (simp only: first)
  from id one first two' show ?thesis by blast
qed

section \<open>Facts about rows that are left out\<close>

lemma image_avoids: "f ` A \<subseteq> - {a} \<longleftrightarrow> (\<forall>x\<in>A. f x \<noteq> a)"
  by blast

lemma not_in_image: "a \<notin> f ` A \<longleftrightarrow> (\<forall>x\<in>A. f x \<noteq> a)"
  by blast

lemma parse_row_id:
  assumes "parse_row env r = Some c"
  shows "cluster_id c = r_cluster_id r"
  using assms by (auto simp: parse_row_def split: parsed.splits option.splits if_splits)

lemma parse_row_unusable:
  assumes "\<forall>cen. parse_centroid env (or_str (r_centroid row) ''[]'') = Arr cen \<longrightarrow> cen = []"
  shows "parse_row env row = None"
  using assms by (auto simp: parse_row_def split: parsed.splits option.splits)

lemma load_clusters_from_row:
  assumes "c \<in> set (load_clusters env rows)"
  shows "\<exists>r\<in>set rows. parse_row env r = Some c"
  using assms
  by (induction rows) (auto simp: load_clusters_def split: option.splits)

lemma load_clusters_without:
  assumes "parse_row env row = None"
  shows "load_clusters env (removeAll row rows) = load_clusters env rows"
  using assms
  by (induction rows) (auto simp: load_clusters_def split: option.splits)

lemma load_clusters_between:
  assumes "parse_row env row = None"
  shows "load_clusters env (before @ row # after) = load_clusters env (before @ after)"
  using assms
  by (induction before) (auto simp: load_clusters_def split: option.splits)

lemma process_feedback_ids:
  assumes c: "cluster_id ` set (clusters st) \<subseteq> S"
    and w: "write_target ` set (writes st) \<subseteq> S"
    and u: "range (randomUUID env) \<subseteq> S"
  shows "cluster_id ` set (clusters (process_feedback env cfg already st fb)) \<subseteq> S
       \<and> write_target ` set (writes (process_feedback env cfg already st fb)) \<subseteq> S"
proof -
  let ?e = "generateEmbedding env (tick st) (content fb)"
  obtain m t where fm: "find_match env cfg fb ?e (tick st + 1) (clusters st) = (m, t)"
    by (cases "find_match env cfg fb ?e (tick st + 1) (clusters st)")
  have fresh: "randomUUID env k \<in> S" for k using u by auto
  show ?thesis
  proof (cases m)
    case None
    with fm c w fresh show ?thesis
      by (auto simp: process_feedback_def process_user_specific_def process_unmatched_def
          Let_def new_cluster_def)
  next
    case (Some i)
    with fm have i: "i < length (clusters st)" using find_match_Some by blast
    let ?x = "add_to_cluster fb ?e (clusters st ! i)"
    have x: "cluster_id ?x \<in> S"
      using c i by (auto simp: add_to_cluster_fix_fields)
    have "set ((clusters st)[i := ?x]) \<subseteq> insert ?x (set (clusters st))"
      by (rule set_update_subset_insert)
    then have upd: "cluster_id ` set ((clusters st)[i := ?x]) \<subseteq> S"
      using c x by auto
    have matched: "process_feedback env cfg already st fb = process_matched st fb ?e t i"
      if "\<not> List.member (processed st) (fb_id fb)" "\<not> List.member already (fb_id fb)"
        "\<not> isUserSpecificFeedback (content fb)"
      using that fm Some by (simp add: process_feedback_def Let_def)
    have m_ok: "cluster_id ` set (clusters (process_matched st fb ?e t i)) \<subseteq> S
        \<and> write_target ` set (writes (process_matched st fb ?e t i)) \<subseteq> S"
      using upd x w by (simp add: process_matched_def Let_def)
    have u_ok: "cluster_id ` set (clusters (process_user_specific env st fb)) \<subseteq> S
        \<and> write_target ` set (writes (process_user_specific env st fb)) \<subseteq> S"
      using c w fresh by (auto simp: process_user_specific_def Let_def new_cluster_def)
    show ?thesis
    proof (cases "\<not> List.member (processed st) (fb_id fb) \<and> \<not> List.member already (fb_id fb)
        \<and> \<not> isUserSpecificFeedback (content fb)")
      case True
      with matched m_ok show ?thesis by simp
    next
      case False
      with c w u_ok show ?thesis
        by (auto simp: process_feedback_def)
    qed
  qed
qed

lemma pass_ids:
  assumes "cluster_id ` set (clusters st) \<subseteq> S" "write_target ` set (writes st) \<subseteq> S"
    and "range (randomUUID env) \<subseteq> S"
  shows "cluster_id ` set (clusters (foldl (process_feedback env cfg already) st fbs)) \<subseteq> S
       \<and> write_target ` set (writes (foldl (process_feedback env cfg already) st fbs)) \<subseteq> S"
  using assms(1,2)
proof (induction fbs arbitrary: st)
  case Nil
  then show ?case by simp
next
  case (Cons fb fbs)
  note one = process_feedback_ids [OF Cons.prems(1) Cons.prems(2) assms(3), of cfg already fb]
  show ?case
    using Cons.IH [of "process_feedback env cfg already st fb"] one by simp
qed

lemma evaluate_fix_ids:
  "cluster_id (fst (evaluate_fix now c)) = cluster_id c
   \<and> write_target ` set (snd (evaluate_fix now c)) \<subseteq> {cluster_id c}"
  by (simp add: evaluate_fix_def Let_def)

lemma evaluate_all_ids:
  "cluster_id ` set (fst (evaluate_all now cs)) = cluster_id ` set cs
   \<and> write_target ` set (snd (evaluate_all now cs)) \<subseteq> cluster_id ` set cs"
proof -
  have a: "cluster_id ` set (fst (evaluate_all now cs)) = cluster_id ` set cs"
    using evaluate_fix_ids by (auto simp: evaluate_all_def image_iff)
  have b: "write_target ` set (snd (evaluate_all now cs)) \<subseteq> cluster_id ` set cs"
    using evaluate_fix_ids by (fastforce simp: evaluate_all_def)
  from a b show ?thesis by simp
qed

lemma score_all_ids:
  "cluster_id ` set (fst (score_all cfg now cs)) = cluster_id ` set cs
   \<and> write_target ` set (snd (score_all cfg now cs)) \<subseteq> cluster_id ` set cs"
  by (auto simp: score_all_def Let_def image_iff)

lemma summarize_id: "cluster_id (summarize env c) = cluster_id c"
  by (simp add: summarize_def split: prod.splits)

lemma summarize_all_ids:
  "cluster_id ` set (fst (summarize_all env cs)) = cluster_id ` set cs
   \<and> write_target ` set (snd (summarize_all env cs)) \<subseteq> cluster_id ` set cs"
  by (auto simp: summarize_all_def Let_def image_iff summarize_id)

lemma digest_issue_from_working_set:
  assumes "issue \<in> set (digest_issues (assemble_digest cfg cs))"
  shows "pi_cluster issue \<in> set cs"
  using assms
  by (auto simp: digest_issues_def assemble_digest_def Let_def to_issue_def
      set_sort_by_priority dest!: in_set_takeD)

lemma digest_pass_ids:
  assumes run: "generateMorningDigest env cfg now rows ms fbs = Some (dg, st)"
    and ids: "cluster_id ` set (clusters (clusterFeedbacksWithEmbeddings env cfg rows ms fbs)) \<subseteq> S"
    and wr: "write_target ` set (writes (clusterFeedbacksWithEmbeddings env cfg rows ms fbs)) \<subseteq> S"
  shows "cluster_id ` set (clusters st) \<subseteq> S
       \<and> write_target ` set (writes st) \<subseteq> S
       \<and> (\<lambda>issue. cluster_id (pi_cluster issue)) ` set (digest_issues dg) \<subseteq> S"
proof -
  let ?st = "clusterFeedbacksWithEmbeddings env cfg rows ms fbs"
  let ?ev = "evaluate_all now (clusters ?st)"
  let ?sc = "score_all cfg now (fst ?ev)"
  let ?su = "summarize_all env (fst ?sc)"
  let ?sorted = "sort_by_priority (fst ?su)"
  from run have dg: "dg = assemble_digest cfg ?sorted"
    and st: "st = ?st \<lparr> clusters := ?sorted, writes := writes ?st @ snd ?ev @ snd ?sc @ snd ?su \<rparr>"
    by (auto simp: generateMorningDigest_def Let_def split: if_splits)
  have e: "cluster_id ` set (fst ?ev) \<subseteq> S" "write_target ` set (snd ?ev) \<subseteq> S"
    using evaluate_all_ids [of now "clusters ?st"] ids by blast+
  have s: "cluster_id ` set (fst ?sc) \<subseteq> S" "write_target ` set (snd ?sc) \<subseteq> S"
    using score_all_ids [of cfg now "fst ?ev"] e(1) by blast+
  have m: "cluster_id ` set (fst ?su) \<subseteq> S" "write_target ` set (snd ?su) \<subseteq> S"
    using summarize_all_ids [of env "fst ?sc"] s(1) by blast+
  have sorted: "cluster_id ` set ?sorted \<subseteq> S"
    using m(1) by (simp add: set_sort_by_priority)
  have issues: "(\<lambda>issue. cluster_id (pi_cluster issue)) ` set (digest_issues dg) \<subseteq> S"
    using digest_issue_from_working_set [of _ cfg ?sorted] sorted dg by blast
  have w: "write_target ` set (writes st) \<subseteq> S"
    using wr e(2) s(2) m(2) by (simp add: st image_Un)
  have c: "cluster_id ` set (clusters st) \<subseteq> S"
    using sorted by (simp add: st)
  from c issues w show ?thesis by simp
qed

lemma digest_pass_without_row:
  assumes "parse_row env row = None"
  shows "generateMorningDigest env cfg now (removeAll row rows) ms fbs
       = generateMorningDigest env cfg now rows ms fbs"
  using load_clusters_without [OF assms, of rows]
  by (simp add: generateMorningDigest_def clusterFeedbacksWithEmbeddings_def initial_state_def)

text \<open>
  Claim C10. Let a stored row of an active cluster have a centroid column that does
  not parse to a non-empty array, let cluster ids be unique among the rows (the primary
  key) and let no generated UUID be that id. Then the row yields no cluster, and the
  working set is the one loaded without the row; no cluster of the working set has its
  id, at loading and after the clustering pass (so it is no candidate of either
  matching tier); no write of the clustering pass or of the digest pass (fix
  evaluation, priority score, summary) is bound to its id, so the stored row stays as
  it is; the digest pass gives what it gives without the row; and no bucket of the
  digest holds a cluster with its id.
\<close>

theorem C10_unusable_centroid_omitted:
  assumes stored: "row \<in> set rows"
    and bad: "\<forall>cen. parse_centroid env (or_str (r_centroid row) ''[]'') = Arr cen \<longrightarrow> cen = []"
    and pk: "\<forall>r\<in>set rows. r_cluster_id r = r_cluster_id row \<longrightarrow> r = row"
    and fresh: "\<forall>n. randomUUID env n \<noteq> r_cluster_id row"
  shows "parse_row env row = None
       \<and> load_clusters env (removeAll row rows) = load_clusters env rows
       \<and> (\<forall>c\<in>set (load_clusters env rows). cluster_id c \<noteq> r_cluster_id row)
       \<and> (\<forall>c\<in>set (clusters (clusterFeedbacksWithEmbeddings env cfg rows ms fbs)).
             cluster_id c \<noteq> r_cluster_id row)
       \<and> (\<forall>w\<in>set (writes (clusterFeedbacksWithEmbeddings env cfg rows ms fbs)).
             write_target w \<noteq> r_cluster_id row)
       \<and> generateMorningDigest env cfg now (removeAll row rows) ms fbs
           = generateMorningDigest env cfg now rows ms fbs
       \<and> (\<forall>dg st. generateMorningDigest env cfg now rows ms fbs = Some (dg, st)
             \<longrightarrow> (\<forall>c\<in>set (clusters st). cluster_id c \<noteq> r_cluster_id row)
               \<and> (\<forall>w\<in>set (writes st). write_target w \<noteq> r_cluster_id row)
               \<and> (\<forall>issue\<in>set (digest_issues dg).
                     cluster_id (pi_cluster issue) \<noteq> r_cluster_id row))"
proof -
  let ?S = "- {r_cluster_id row}"
  let ?st = "clusterFeedbacksWithEmbeddings env cfg rows ms fbs"
  have none: "parse_row env row = None"
    using bad by (rule parse_row_unusable)
  have loaded: "cluster_id c \<noteq> r_cluster_id row" if "c \<in> set (load_clusters env rows)" for c
  proof
    assume same: "cluster_id c = r_cluster_id row"
    from that obtain r where r: "r \<in> set rows" "parse_row env r = Some c"
      using load_clusters_from_row by blast
    then have "r_cluster_id r = r_cluster_id row"
      using same parse_row_id by fastforce
    with pk r(1) have "r = row" by blast
    with r(2) none show False by simp
  qed
  have init_c: "cluster_id ` set (clusters (initial_state env rows ms)) \<subseteq> ?S"
  proof -
    have "cluster_id ` set (load_clusters env rows) \<subseteq> ?S"
      unfolding image_avoids using loaded by simp
    then show ?thesis by (simp add: initial_state_def)
  qed
  have init_w: "write_target ` set (writes (initial_state env rows ms)) \<subseteq> ?S"
    by (simp add: initial_state_def)
  have uu: "range (randomUUID env) \<subseteq> ?S"
    unfolding image_avoids using fresh by simp
  have pass: "cluster_id ` set (clusters ?st) \<subseteq> ?S \<and> write_target ` set (writes ?st) \<subseteq> ?S"
    unfolding clusterFeedbacksWithEmbeddings_def
    by (rule pass_ids [OF init_c init_w uu])
  have digest: "(\<forall>c\<in>set (clusters st). cluster_id c \<noteq> r_cluster_id row)
      \<and> (\<forall>w\<in>set (writes st). write_target w \<noteq> r_cluster_id row)
      \<and> (\<forall>issue\<in>set (digest_issues dg). cluster_id (pi_cluster issue) \<noteq> r_cluster_id row)"
    if run: "generateMorningDigest env cfg now rows ms fbs = Some (dg, st)" for dg st
    using digest_pass_ids [OF run, of ?S] pass unfolding image_avoids by simp
  have c1: "\<forall>c\<in>set (clusters ?st). cluster_id c \<noteq> r_cluster_id row"
    using pass unfolding image_avoids by simp
  have c2: "\<forall>w\<in>set (writes ?st). write_target w \<noteq> r_cluster_id row"
    using pass unfolding image_avoids by simp
  from none load_clusters_without [OF none, of rows] loaded c1 c2
    digest_pass_without_row [OF none, of cfg now rows ms fbs] digest
  show ?thesis by blast
qed

theorem C10_unusable_centroid_omitted_witness:
  "sample_row ''bad'' (Some ''oops'')
       \<in> set [sample_row ''bad'' (Some ''oops''), sample_row ''good'' (Some ''[1,0]'')]
   \<and> parse_centroid sample_env (or_str (r_centroid (sample_row ''bad'' (Some ''oops''))) ''[]'')
       = ParseError
   \<and> r_cluster_id (sample_row ''good'' (Some ''[1,0]''))
       \<noteq> r_cluster_id (sample_row ''bad'' (Some ''oops''))
   \<and> (\<forall>n. randomUUID sample_env n \<noteq> r_cluster_id (sample_row ''bad'' (Some ''oops'')))
   \<and> map cluster_id (load_clusters sample_env
          [sample_row ''bad'' (Some ''oops''), sample_row ''good'' (Some ''[1,0]'')]) = [''good'']
   \<and> ''bad'' \<notin> cluster_id ` set (clusters (clusterFeedbacksWithEmbeddings sample_env default_config
          [sample_row ''bad'' (Some ''oops''), sample_row ''good'' (Some ''[1,0]'')] []
          [sample_feedback ''f1'' ''app crashes on resume'']))
   \<and> ''bad'' \<notin> write_target ` set (writes (clusterFeedbacksWithEmbeddings sample_env default_config
          [sample_row ''bad'' (Some ''oops''), sample_row ''good'' (Some ''[1,0]'')] []
          [sample_feedback ''f1'' ''app crashes on resume'']))
   \<and> (case generateMorningDigest sample_env default_config 5000
             [sample_row ''bad'' (Some ''oops''), sample_row ''good'' (Some ''[1,0]'')] []
             [sample_feedback ''f1'' ''app crashes on resume''] of
         None \<Rightarrow> False
       | Some (dg, st) \<Rightarrow>
           ''bad'' \<notin> cluster_id ` set (clusters st)
           \<and> ''bad'' \<notin> write_target ` set (writes st)
           \<and> ''bad'' \<notin> (\<lambda>issue. cluster_id (pi_cluster issue)) ` set (digest_issues dg))"
proof -
  let ?bad = "sample_row ''bad'' (Some ''oops'')"
  let ?good = "sample_row ''good'' (Some ''[1,0]'')"
  let ?fb = "sample_feedback ''f1'' ''app crashes on resume''"
  have id: "r_cluster_id ?bad = ''bad''" by (simp add: sample_row_def)
  have stored: "?bad \<in> set [?bad, ?good]" by simp
  have perr: "parse_centroid sample_env (or_str (r_centroid ?bad) ''[]'') = ParseError"
    by (simp add: sample_env_def sample_row_def or_str_def)
  then have bad: "\<forall>cen. parse_centroid sample_env (or_str (r_centroid ?bad) ''[]'') = Arr cen
      \<longrightarrow> cen = []"
    by simp
  have other: "r_cluster_id ?good \<noteq> r_cluster_id ?bad" by (simp add: sample_row_def)
  then have pk: "\<forall>r\<in>set [?bad, ?good]. r_cluster_id r = r_cluster_id ?bad \<longrightarrow> r = ?bad"
    by simp
  have fresh: "\<forall>n. randomUUID sample_env n \<noteq> r_cluster_id ?bad"
    by (simp add: sample_env_def sample_row_def)
  have loaded: "map cluster_id (load_clusters sample_env [?bad, ?good]) = [''good'']"
    by (simp add: load_clusters_def parse_row_def sample_env_def sample_row_def or_str_def)
  note main = C10_unusable_centroid_omitted [OF stored bad pk fresh,
      of default_config "[]" "[?fb]" 5000]
  have c: "''bad'' \<notin> cluster_id ` set (clusters (clusterFeedbacksWithEmbeddings sample_env
      default_config [?bad, ?good] [] [?fb]))"
    using main unfolding id not_in_image by simp
  have w: "''bad'' \<notin> write_target ` set (writes (clusterFeedbacksWithEmbeddings sample_env
      default_config [?bad, ?good] [] [?fb]))"
    using main unfolding id not_in_image by simp
  obtain dg st where run: "generateMorningDigest sample_env default_config 5000 [?bad, ?good] []
      [?fb] = Some (dg, st)"
    by (simp add: generateMorningDigest_def Let_def)
  have d: "''bad'' \<notin> cluster_id ` set (clusters st)
      \<and> ''bad'' \<notin> write_target ` set (writes st)
      \<and> ''bad'' \<notin> (\<lambda>issue. cluster_id (pi_cluster issue)) ` set (digest_issues dg)"
    using main unfolding id not_in_image by (simp add: run)
  from stored perr other fresh loaded c w d show ?thesis
    by (simp add: run)
qed

end
